theory Spec2Isabelle
  imports
    Main
    "HOL-Library.AList"
    "HOL-Library.Sublist"
    "HOL-Library.Char_ord"
    "HOL-Library.List_Lexorder"
begin

section \<open>Values, documents and the exceptions of the traversal\<close>

text \<open>
  The settings document is whatever \<^verbatim>\<open>json.load\<close> returns: \<^verbatim>\<open>None\<close>, a bool, an int, a
  str, a list or a dict with string keys. A dict is an association list in insertion
  order; \<^verbatim>\<open>d[k] = v\<close> on a dict replaces the value of an existing key in place and
  appends a new key, which is \<open>AList.update\<close>. Floating-point numbers are left out of the
  value type. Values are trees here: this is the store as long as no dict is the value
  of two keys or reachable from both cache entries. The store with dicts held by
  reference follows further down.
\<close>

datatype json =
    JNull
  | JBool bool
  | JInt int
  | JStr string
  | JList "json list"
  | JObj "(string \<times> json) list"

datatype exn =
  KeyError | TypeError | IndexError | ValueError | OSError | JSONDecodeError | UnicodeDecodeError

text \<open>\<^verbatim>\<open>isinstance(x, dict)\<close>.\<close>

fun is_dict :: "json \<Rightarrow> bool" where
  "is_dict (JObj kvs) = True"
| "is_dict _ = False"

text \<open>\<^verbatim>\<open>value[key]\<close> with a string key: a dict looks the key up (KeyError when it is
  missing); a list and a str accept integer indices only, every other value is not
  subscriptable: TypeError.\<close>

fun getitem :: "json \<Rightarrow> string \<Rightarrow> exn + json" where
  "getitem (JObj kvs) k = (case map_of kvs k of None \<Rightarrow> Inl KeyError | Some v \<Rightarrow> Inr v)"
| "getitem _ k = Inl TypeError"

text \<open>\<^verbatim>\<open>d[key] = value\<close> with a string key: only a dict supports it.\<close>

fun setitem :: "json \<Rightarrow> string \<Rightarrow> json \<Rightarrow> exn + json" where
  "setitem (JObj kvs) k v = Inr (JObj (AList.update k v kvs))"
| "setitem _ k v = Inl TypeError"

text \<open>\<^verbatim>\<open>key in d\<close> with a string key: key membership for a dict, element membership for
  a list, substring test for a str, TypeError for a value that is not a container.\<close>

definition is_substring :: "string \<Rightarrow> string \<Rightarrow> bool" where
  "is_substring k s = list_ex (prefix k) (suffixes s)"

fun contains :: "json \<Rightarrow> string \<Rightarrow> exn + bool" where
  "contains (JObj kvs) k = Inr (map_of kvs k \<noteq> None)"
| "contains (JList xs) k = Inr (List.member xs (JStr k))"
| "contains (JStr s) k = Inr (is_substring k s)"
| "contains _ k = Inl TypeError"

text \<open>\<^verbatim>\<open>key_path.split(".")\<close>: never empty; the empty string gives one empty segment.\<close>

fun split_dot :: "string \<Rightarrow> string list" where
  "split_dot [] = [[]]"
| "split_dot (c # cs) =
     (if c = CHR ''.'' then [] # split_dot cs
      else (case split_dot cs of [] \<Rightarrow> [[c]] | w # ws \<Rightarrow> (c # w) # ws))"

text \<open>The loop of \<^verbatim>\<open>get_setting\<close>: \<^verbatim>\<open>for key in keys: value = value[key]\<close>.\<close>

fun walk :: "json \<Rightarrow> string list \<Rightarrow> exn + json" where
  "walk v [] = Inr v"
| "walk v (k # ks) = (case getitem v k of Inl e \<Rightarrow> Inl e | Inr v' \<Rightarrow> walk v' ks)"

text \<open>
  The traversal of \<^verbatim>\<open>set_setting\<close>:
  \<^verbatim>\<open>
  for i, key in enumerate(keys[:-1]):
      if key not in d or not isinstance(d[key], dict):
          d[key] = {}
      d = d[key]
  d[keys[-1]] = value
  \<close>
  The function returns the dict \<^verbatim>\<open>d\<close> as it is after the in-place mutation; the last
  \<open>setitem\<close> of the recursive equation writes the mutated child back, which the
  reference held by the parent does in Python.
\<close>

fun assign_path :: "json \<Rightarrow> string list \<Rightarrow> json \<Rightarrow> exn + json" where
  "assign_path d [] v = Inl IndexError"
| "assign_path d [k] v = setitem d k v"
| "assign_path d (k # ks) v =
     (case contains d k of
        Inl e \<Rightarrow> Inl e
      | Inr present \<Rightarrow>
          (case (if \<not> present then Inr True
                 else (case getitem d k of Inl e \<Rightarrow> Inl e | Inr x \<Rightarrow> Inr (\<not> is_dict x))) of
             Inl e \<Rightarrow> Inl e
           | Inr reset \<Rightarrow>
               (case (if reset then setitem d k (JObj []) else Inr d) of
                  Inl e \<Rightarrow> Inl e
                | Inr d1 \<Rightarrow>
                    (case getitem d1 k of
                       Inl e \<Rightarrow> Inl e
                     | Inr child \<Rightarrow>
                         (case assign_path child ks v of
                            Inl e \<Rightarrow> Inl e
                          | Inr child' \<Rightarrow> setitem d1 k child')))))"

section \<open>The file system and the settings manager\<close>

text \<open>
  A settings file is described by what opening it and calling \<^verbatim>\<open>json.load\<close> does (it
  returns a value or raises) and by its modification time, which the code only stores
  and compares for equality. The two paths are taken relative to the application-data
  directory.
\<close>

datatype content = Document json | Fails exn

record settings_file =
  content :: content
  mtime :: int

datatype level = INFO | WARNING | ERROR

text \<open>The trace records the log calls and every \<^verbatim>\<open>open\<close> of a settings file for reading.\<close>

datatype event = Logged level | Opened string

record world =
  files :: "string \<Rightarrow> settings_file option"
  settings_cache :: "string \<Rightarrow> json"
  last_modified :: "string \<Rightarrow> int"
  trace :: "event list"

definition YIMMENU_SETTINGS_FILE_PATH :: string where
  "YIMMENU_SETTINGS_FILE_PATH = ''YimMenu/settings.json''"

definition YIMMENUV2_SETTINGS_FILE_PATH :: string where
  "YIMMENUV2_SETTINGS_FILE_PATH = ''YimMenuV2/settings.json''"

text \<open>\<^verbatim>\<open>version_key = "v2" if yim_version == "v2" else "v1"\<close>.\<close>

definition version_key :: "string \<Rightarrow> string" where
  "version_key yim_version = (if yim_version = ''v2'' then ''v2'' else ''v1'')"

definition SETTINGS_FILE_PATHS :: "string \<Rightarrow> string option" where
  "SETTINGS_FILE_PATHS =
     [''v1'' \<mapsto> YIMMENU_SETTINGS_FILE_PATH, ''v2'' \<mapsto> YIMMENUV2_SETTINGS_FILE_PATH]"

definition get_file_path :: "string \<Rightarrow> string" where
  "get_file_path yim_version =
     (case SETTINGS_FILE_PATHS (version_key yim_version) of
        Some p \<Rightarrow> p
      | None \<Rightarrow> YIMMENU_SETTINGS_FILE_PATH)"

text \<open>\<^verbatim>\<open>SettingsManager.__init__\<close>: both cache entries \<^verbatim>\<open>None\<close>, both timestamps 0.\<close>

definition init :: "(string \<Rightarrow> settings_file option) \<Rightarrow> world" where
  "init fs = \<lparr>files = fs, settings_cache = (\<lambda>k. JNull), last_modified = (\<lambda>k. 0), trace = []\<rparr>"

definition emit :: "event \<Rightarrow> world \<Rightarrow> world" where
  "emit e w = w\<lparr>trace := trace w @ [e]\<rparr>"

text \<open>\<^verbatim>\<open>_read_json_safely\<close>: a missing file is an empty dict; JSONDecodeError and OSError
  are logged as a warning and give an empty dict; any other exception of the read leaves
  the function.\<close>

definition read_json_safely :: "world \<Rightarrow> string \<Rightarrow> (exn + json) \<times> world" where
  "read_json_safely w file_path =
     (case files w file_path of
        None \<Rightarrow> (Inr (JObj []), w)
      | Some f \<Rightarrow>
          (let w1 = emit (Opened file_path) w in
           case content f of
             Document j \<Rightarrow> (Inr j, w1)
           | Fails e \<Rightarrow>
               if e = JSONDecodeError \<or> e = OSError
               then (Inr (JObj []), emit (Logged WARNING) w1)
               else (Inl e, w1)))"

text \<open>
  \<^verbatim>\<open>_write_json_safely\<close>. The operating system decides whether the write goes through:
  either one of \<^verbatim>\<open>makedirs\<close>, \<^verbatim>\<open>open\<close>, \<^verbatim>\<open>json.dump\<close>, \<^verbatim>\<open>shutil.move\<close> raises OSError, and
  then the settings file is as it was, or the temporary file replaces the settings
  file, which then has a modification time chosen by the system. At the settings path
  there is a regular file or nothing.
\<close>

datatype write_outcome = WriteOk int | WriteFails

definition write_json_safely ::
  "world \<Rightarrow> string \<Rightarrow> json \<Rightarrow> string \<Rightarrow> write_outcome \<Rightarrow> bool \<times> world" where
  "write_json_safely w file_path data version wr =
     (case wr of
        WriteFails \<Rightarrow> (False, emit (Logged ERROR) w)
      | WriteOk t \<Rightarrow>
          (True,
           emit (Logged INFO)
             (w\<lparr>files := (files w)(file_path \<mapsto> \<lparr>content = Document data, mtime = t\<rparr>),
                settings_cache := (settings_cache w)(version := data),
                last_modified := (last_modified w)(version := t)\<rparr>)))"

text \<open>
  \<^verbatim>\<open>_get_settings_with_cache\<close>. The file system changes only between operations, so
  \<^verbatim>\<open>os.path.getmtime\<close> of a file that \<^verbatim>\<open>os.path.exists\<close> has just seen does not raise.
  When the file exists the result is the cache entry itself.
\<close>

definition get_settings_with_cache :: "world \<Rightarrow> string \<Rightarrow> (exn + json) \<times> world" where
  "get_settings_with_cache w yim_version =
     (let vk = version_key yim_version; file_path = get_file_path yim_version in
      case files w file_path of
        None \<Rightarrow> (Inr (JObj []), w)
      | Some f \<Rightarrow>
          (let current_mtime = mtime f in
           if settings_cache w vk = JNull \<or> last_modified w vk \<noteq> current_mtime
           then (case read_json_safely w file_path of
                   (Inl e, w1) \<Rightarrow> (Inl e, w1)
                 | (Inr j, w1) \<Rightarrow>
                     (Inr j,
                      w1\<lparr>settings_cache := (settings_cache w1)(vk := j),
                         last_modified := (last_modified w1)(vk := current_mtime)\<rparr>))
           else (Inr (settings_cache w vk), w)))"

text \<open>\<^verbatim>\<open>get_setting\<close>: KeyError and TypeError of the traversal give the default.\<close>

definition get_setting :: "world \<Rightarrow> string \<Rightarrow> json \<Rightarrow> string \<Rightarrow> (exn + json) \<times> world" where
  "get_setting w key_path dflt yim_version =
     (case get_settings_with_cache w yim_version of
        (Inl e, w1) \<Rightarrow> (Inl e, w1)
      | (Inr data, w1) \<Rightarrow>
          (case walk data (split_dot key_path) of
             Inr v \<Rightarrow> (Inr v, w1)
           | Inl e \<Rightarrow> if e = KeyError \<or> e = TypeError then (Inr dflt, w1) else (Inl e, w1)))"

text \<open>
  \<^verbatim>\<open>set_setting\<close>. \<^verbatim>\<open>data\<close> is the cache entry itself when the settings file exists, so
  the traversal mutates the cached document before anything is written; when the file
  is missing \<^verbatim>\<open>data\<close> is a fresh dict that the cache does not hold. Every exception of
  the traversal is logged and gives \<^verbatim>\<open>False\<close>; the traversal raises before it mutates
  anything.
\<close>

definition set_setting ::
  "world \<Rightarrow> string \<Rightarrow> json \<Rightarrow> string \<Rightarrow> write_outcome \<Rightarrow> (exn + bool) \<times> world" where
  "set_setting w key_path v yim_version wr =
     (let vk = version_key yim_version; file_path = get_file_path yim_version in
      case get_settings_with_cache w yim_version of
        (Inl e, w1) \<Rightarrow> (Inl e, w1)
      | (Inr data, w1) \<Rightarrow>
          (case assign_path data (split_dot key_path) v of
             Inl e \<Rightarrow> (Inr False, emit (Logged ERROR) w1)
           | Inr data' \<Rightarrow>
               (let w2 = (if files w1 file_path \<noteq> None
                          then w1\<lparr>settings_cache := (settings_cache w1)(vk := data')\<rparr>
                          else w1);
                    (ok, w3) = write_json_safely w2 file_path data' vk wr
                in (Inr ok, w3))))"

definition default_settings :: json where
  "default_settings =
     JObj [(''lua'', JObj [(''auto_reload_scripts'', JBool False),
                           (''auto_reload_changed_scripts'', JBool False)]),
           (''debug'', JObj [(''external_console'', JBool False)]),
           (''theme'', JObj [(''light_mode'', JBool False)])]"

text \<open>\<^verbatim>\<open>ensure_settings_file_exists\<close> returns nothing; the model returns the new world.\<close>

definition ensure_settings_file_exists :: "world \<Rightarrow> string \<Rightarrow> write_outcome \<Rightarrow> world" where
  "ensure_settings_file_exists w yim_version wr =
     (let file_path = get_file_path yim_version in
      if files w file_path = None
      then (let (success, w1) =
                  write_json_safely w file_path default_settings (version_key yim_version) wr
            in if success then emit (Logged INFO) w1 else emit (Logged ERROR) w1)
      else w)"

definition get_auto_reload_changed_scripts :: "world \<Rightarrow> string \<Rightarrow> (exn + json) \<times> world" where
  "get_auto_reload_changed_scripts w yim_version =
     get_setting w ''lua.auto_reload_changed_scripts'' (JBool False) yim_version"

definition set_auto_reload_changed_scripts ::
  "world \<Rightarrow> json \<Rightarrow> string \<Rightarrow> write_outcome \<Rightarrow> (exn + bool) \<times> world" where
  "set_auto_reload_changed_scripts w v yim_version wr =
     set_setting w ''lua.auto_reload_changed_scripts'' v yim_version wr"

definition sync_auto_reload_settings ::
  "world \<Rightarrow> string \<Rightarrow> string \<Rightarrow> write_outcome \<Rightarrow> (exn + bool) \<times> world" where
  "sync_auto_reload_settings w source_version target_version wr =
     (if source_version = target_version
      then (Inr True, emit (Logged WARNING) w)
      else (case get_auto_reload_changed_scripts w source_version of
              (Inl e, w1) \<Rightarrow> (Inl e, w1)
            | (Inr v, w1) \<Rightarrow> set_auto_reload_changed_scripts w1 v target_version wr))"

text \<open>The dict that the traversal of \<^verbatim>\<open>set_setting\<close> continues in below key \<open>k\<close>: the
  value of \<open>k\<close> when that is a dict, a fresh empty dict otherwise.\<close>

definition child_of :: "(string \<times> json) list \<Rightarrow> string \<Rightarrow> json" where
  "child_of kvs k = (case map_of kvs k of Some (JObj c) \<Rightarrow> JObj c | _ \<Rightarrow> JObj [])"

text \<open>
  The condition under which the specification promises the default: along the key path
  some segment is absent from the mapping it is looked up in, or the value it is looked
  up in is not a mapping.
\<close>

fun path_missing :: "json \<Rightarrow> string list \<Rightarrow> bool" where
  "path_missing d [] = False"
| "path_missing (JObj kvs) (k # ks) =
     (case map_of kvs k of None \<Rightarrow> True | Some x \<Rightarrow> path_missing x ks)"
| "path_missing _ (k # ks) = True"

section \<open>The script directories\<close>

text \<open>
  The scripts directory of an installation is a tree of regular files (with their
  content) and directories, each directory an association list in the order of
  \<^verbatim>\<open>os.listdir\<close>. The disabled directory is the entry \<^verbatim>\<open>disabled\<close> of the scripts
  directory. A script base name is one path component. The scripts directory itself is
  there: \<^verbatim>\<open>paths.py\<close> creates it on import.
\<close>

datatype node = File string | Dir "(string \<times> node) list"

type_synonym lua_fs = "string \<Rightarrow> (string \<times> node) list"

definition SCRIPTS_PATH :: string where
  "SCRIPTS_PATH = ''YimMenu/scripts''"

definition SCRIPTS_PATH_V2 :: string where
  "SCRIPTS_PATH_V2 = ''YimMenuV2/scripts''"

definition scripts_path :: "string \<Rightarrow> string" where
  "scripts_path version = (if version = ''v2'' then SCRIPTS_PATH_V2 else SCRIPTS_PATH)"

fun isfile :: "node option \<Rightarrow> bool" where
  "isfile (Some (File c)) = True"
| "isfile _ = False"

text \<open>\<^verbatim>\<open>_get_lua_files\<close>, given what is at the directory's path.\<close>

fun get_lua_files :: "node option \<Rightarrow> string list" where
  "get_lua_files (Some (Dir es)) =
     filter (\<lambda>f. suffix ''.lua'' f \<and> isfile (map_of es f)) (map fst es)"
| "get_lua_files _ = []"

text \<open>\<^verbatim>\<open>s.removesuffix(suffix)\<close>.\<close>

definition removesuffix :: "string \<Rightarrow> string \<Rightarrow> string" where
  "removesuffix s suf =
     (if suf \<noteq> [] \<and> suffix suf s then take (length s - length suf) s else s)"

text \<open>
  \<^verbatim>\<open>os.makedirs(join(d, name), exist_ok=True)\<close> for a directory \<open>d\<close> that exists: nothing
  to do when the entry is a directory, FileExistsError when it is a regular file;
  otherwise the directory is created, unless the system refuses (\<open>ok\<close> is false).
\<close>

definition makedirs :: "bool \<Rightarrow> (string \<times> node) list \<Rightarrow> string \<Rightarrow> exn + (string \<times> node) list" where
  "makedirs ok d name =
     (case map_of d name of
        Some (Dir kids) \<Rightarrow> Inr d
      | Some (File c) \<Rightarrow> Inl OSError
      | None \<Rightarrow> if ok then Inr (AList.update name (Dir []) d) else Inl OSError)"

text \<open>
  \<^verbatim>\<open>shutil.move(src, join(d, name))\<close> seen from the destination directory \<open>d\<close>, where
  \<open>n\<close> is what is at \<^verbatim>\<open>src\<close> and the last component of \<^verbatim>\<open>src\<close> is \<open>name\<close> too: a free name is
  taken by a rename; a regular file is replaced by a regular file and refuses a
  directory; an existing directory receives the source inside it, under the same name,
  unless that name is taken there (\<^verbatim>\<open>shutil.Error\<close>, an OSError).
\<close>

definition place :: "(string \<times> node) list \<Rightarrow> string \<Rightarrow> node \<Rightarrow> exn + (string \<times> node) list" where
  "place d name n =
     (case map_of d name of
        None \<Rightarrow> Inr (AList.update name n d)
      | Some (File c) \<Rightarrow>
          (case n of File c' \<Rightarrow> Inr (AList.update name n d) | Dir kids \<Rightarrow> Inl OSError)
      | Some (Dir kids) \<Rightarrow>
          (case map_of kids name of
             Some x \<Rightarrow> Inl OSError
           | None \<Rightarrow> Inr (AList.update name (Dir (AList.update name n kids)) d)))"

record scripts =
  enabled :: "string list"
  disabled :: "string list"

text \<open>\<^verbatim>\<open>get_scripts\<close>. An OSError of \<^verbatim>\<open>os.makedirs\<close> is not caught.\<close>

definition get_scripts :: "lua_fs \<Rightarrow> string \<Rightarrow> bool \<Rightarrow> (exn + scripts) \<times> lua_fs" where
  "get_scripts fs version ok =
     (let p = scripts_path version in
      case makedirs ok (fs p) ''disabled'' of
        Inl e \<Rightarrow> (Inl e, fs)
      | Inr d \<Rightarrow>
          (let enabled_scripts_full = get_lua_files (Some (Dir d));
               disabled_scripts_full = get_lua_files (map_of d ''disabled'')
           in (Inr \<lparr>enabled = map (\<lambda>s. removesuffix s ''.lua'') (sort enabled_scripts_full),
                    disabled = map (\<lambda>s. removesuffix s ''.lua'') (sort disabled_scripts_full)\<rparr>,
               fs(p := d))))"

text \<open>
  \<^verbatim>\<open>enable_script\<close>: from \<^verbatim>\<open>disabled/<filename>.lua\<close> to \<^verbatim>\<open><filename>.lua\<close> in the scripts
  directory. Every OSError of the move is caught and gives \<^verbatim>\<open>False\<close>; \<open>ok\<close> is false when
  the system refuses the move, and then nothing has changed.
\<close>

definition enable_script :: "lua_fs \<Rightarrow> string \<Rightarrow> string \<Rightarrow> bool \<Rightarrow> bool \<times> lua_fs" where
  "enable_script fs filename version ok =
     (let p = scripts_path version; d = fs p; actual_filename = filename @ ''.lua'' in
      case map_of d ''disabled'' of
        Some (Dir kids) \<Rightarrow>
          (case map_of kids actual_filename of
             None \<Rightarrow> (False, fs)
           | Some n \<Rightarrow>
               if \<not> ok then (False, fs)
               else (case place d actual_filename n of
                       Inl e \<Rightarrow> (False, fs)
                     | Inr d1 \<Rightarrow>
                         (True,
                          fs(p := AList.update ''disabled''
                                    (Dir (AList.delete actual_filename kids)) d1))))
      | _ \<Rightarrow> (False, fs))"

text \<open>
  \<^verbatim>\<open>disable_script\<close>: from \<^verbatim>\<open><filename>.lua\<close> in the scripts directory to
  \<^verbatim>\<open>disabled/<filename>.lua\<close>; the disabled directory is created when it is missing.
\<close>

definition disable_script :: "lua_fs \<Rightarrow> string \<Rightarrow> string \<Rightarrow> bool \<Rightarrow> bool \<times> lua_fs" where
  "disable_script fs filename version ok =
     (let p = scripts_path version; d = fs p; actual_filename = filename @ ''.lua'' in
      case map_of d actual_filename of
        None \<Rightarrow> (False, fs)
      | Some n \<Rightarrow>
          (case makedirs ok d ''disabled'' of
             Inl e \<Rightarrow> (False, fs)
           | Inr d1 \<Rightarrow>
               (case map_of d1 ''disabled'' of
                  Some (Dir kids) \<Rightarrow>
                    if \<not> ok then (False, fs)
                    else (case place kids actual_filename n of
                            Inl e \<Rightarrow> (False, fs(p := d1))
                          | Inr kids1 \<Rightarrow>
                              (True,
                               fs(p := AList.update ''disabled'' (Dir kids1)
                                         (AList.delete actual_filename d1))))
                | _ \<Rightarrow> (False, fs))))"

text \<open>What is at \<^verbatim>\<open><f>\<close> in the scripts directory and at \<^verbatim>\<open>disabled/<f>\<close>.\<close>

definition enabled_entry :: "lua_fs \<Rightarrow> string \<Rightarrow> string \<Rightarrow> node option" where
  "enabled_entry fs version f = map_of (fs (scripts_path version)) f"

definition disabled_entry :: "lua_fs \<Rightarrow> string \<Rightarrow> string \<Rightarrow> node option" where
  "disabled_entry fs version f =
     (case map_of (fs (scripts_path version)) ''disabled'' of
        Some (Dir kids) \<Rightarrow> map_of kids f
      | _ \<Rightarrow> None)"

text \<open>The file system in which every scripts directory is empty.\<close>

definition empty_fs :: lua_fs where
  "empty_fs = (\<lambda>p. [])"

section \<open>The settings manager with dicts held by reference\<close>

text \<open>
  The store keeps the dict that \<^verbatim>\<open>json.load\<close> built, or that the caller handed to
  \<^verbatim>\<open>set_setting\<close>, and \<^verbatim>\<open>get_setting\<close> returns the dict found in the cache, not a copy. A
  dict is therefore an object with an address; a value is a scalar, a list or the
  address of a dict, and one dict can be the value of several keys and be reachable
  from both cache entries. Lists are never changed by the code and stay values.
\<close>

datatype val = VNone | VBool bool | VInt int | VStr string | VList "val list" | VDict nat

record heap =
  objs :: "nat \<Rightarrow> (string \<times> val) list"
  next_addr :: nat

text \<open>A dict display \<^verbatim>\<open>{}\<close>: a new, empty dict.\<close>

definition new_dict :: "heap \<Rightarrow> nat \<times> heap" where
  "new_dict h =
     (next_addr h, h\<lparr>objs := (objs h)(next_addr h := []), next_addr := Suc (next_addr h)\<rparr>)"

text \<open>\<^verbatim>\<open>json.load\<close> builds a new dict for every JSON object of the text.\<close>

fun load :: "json \<Rightarrow> heap \<Rightarrow> val \<times> heap"
  and load_items :: "(string \<times> json) list \<Rightarrow> heap \<Rightarrow> (string \<times> val) list \<times> heap"
  and load_list :: "json list \<Rightarrow> heap \<Rightarrow> val list \<times> heap" where
  "load JNull h = (VNone, h)"
| "load (JBool b) h = (VBool b, h)"
| "load (JInt i) h = (VInt i, h)"
| "load (JStr s) h = (VStr s, h)"
| "load (JList js) h = (case load_list js h of (vs, h1) \<Rightarrow> (VList vs, h1))"
| "load (JObj kvs) h =
     (case load_items kvs h of
        (items, h1) \<Rightarrow>
          (case new_dict h1 of
             (a, h2) \<Rightarrow> (VDict a, h2\<lparr>objs := (objs h2)(a := items)\<rparr>)))"
| "load_items [] h = ([], h)"
| "load_items ((k, j) # kvs) h =
     (case load j h of
        (v, h1) \<Rightarrow> (case load_items kvs h1 of (items, h2) \<Rightarrow> ((k, v) # items, h2)))"
| "load_list [] h = ([], h)"
| "load_list (j # js) h =
     (case load j h of
        (v, h1) \<Rightarrow> (case load_list js h1 of (vs, h2) \<Rightarrow> (v # vs, h2)))"

text \<open>
  \<^verbatim>\<open>json.dump\<close> writes the tree that the value unfolds to and raises ValueError on a
  circular reference. The first argument bounds the nesting of dicts; with the number
  of dicts of the heap as the bound, it is exceeded exactly when some dict contains
  itself.
\<close>

fun dump :: "nat \<Rightarrow> heap \<Rightarrow> val \<Rightarrow> exn + json"
  and dump_items :: "nat \<Rightarrow> heap \<Rightarrow> (string \<times> val) list \<Rightarrow> exn + (string \<times> json) list"
  and dump_list :: "nat \<Rightarrow> heap \<Rightarrow> val list \<Rightarrow> exn + json list" where
  "dump n h VNone = Inr JNull"
| "dump n h (VBool b) = Inr (JBool b)"
| "dump n h (VInt i) = Inr (JInt i)"
| "dump n h (VStr s) = Inr (JStr s)"
| "dump n h (VList vs) = (case dump_list n h vs of Inl e \<Rightarrow> Inl e | Inr js \<Rightarrow> Inr (JList js))"
| "dump 0 h (VDict a) = Inl ValueError"
| "dump (Suc n) h (VDict a) =
     (case dump_items n h (objs h a) of Inl e \<Rightarrow> Inl e | Inr kvs \<Rightarrow> Inr (JObj kvs))"
| "dump_items n h [] = Inr []"
| "dump_items n h ((k, v) # kvs) =
     (case dump n h v of
        Inl e \<Rightarrow> Inl e
      | Inr j \<Rightarrow> (case dump_items n h kvs of Inl e \<Rightarrow> Inl e | Inr js \<Rightarrow> Inr ((k, j) # js)))"
| "dump_list n h [] = Inr []"
| "dump_list n h (v # vs) =
     (case dump n h v of
        Inl e \<Rightarrow> Inl e
      | Inr j \<Rightarrow> (case dump_list n h vs of Inl e \<Rightarrow> Inl e | Inr js \<Rightarrow> Inr (j # js)))"

text \<open>\<^verbatim>\<open>isinstance(x, dict)\<close>, \<^verbatim>\<open>value[key]\<close>, \<^verbatim>\<open>d[key] = value\<close> and \<^verbatim>\<open>key in d\<close> on
  values of the heap; an assignment changes the dict at its address.\<close>

fun is_dict_ref :: "val \<Rightarrow> bool" where
  "is_dict_ref (VDict a) = True"
| "is_dict_ref _ = False"

fun getitem_ref :: "heap \<Rightarrow> val \<Rightarrow> string \<Rightarrow> exn + val" where
  "getitem_ref h (VDict a) k =
     (case map_of (objs h a) k of None \<Rightarrow> Inl KeyError | Some v \<Rightarrow> Inr v)"
| "getitem_ref h _ k = Inl TypeError"

fun setitem_ref :: "heap \<Rightarrow> val \<Rightarrow> string \<Rightarrow> val \<Rightarrow> exn + heap" where
  "setitem_ref h (VDict a) k v = Inr (h\<lparr>objs := (objs h)(a := AList.update k v (objs h a))\<rparr>)"
| "setitem_ref h _ k v = Inl TypeError"

fun contains_ref :: "heap \<Rightarrow> val \<Rightarrow> string \<Rightarrow> exn + bool" where
  "contains_ref h (VDict a) k = Inr (map_of (objs h a) k \<noteq> None)"
| "contains_ref h (VList vs) k = Inr (List.member vs (VStr k))"
| "contains_ref h (VStr s) k = Inr (is_substring k s)"
| "contains_ref h _ k = Inl TypeError"

text \<open>The loop of \<^verbatim>\<open>get_setting\<close>.\<close>

fun walk_ref :: "heap \<Rightarrow> val \<Rightarrow> string list \<Rightarrow> exn + val" where
  "walk_ref h v [] = Inr v"
| "walk_ref h v (k # ks) =
     (case getitem_ref h v k of Inl e \<Rightarrow> Inl e | Inr v' \<Rightarrow> walk_ref h v' ks)"

text \<open>
  The traversal of \<^verbatim>\<open>set_setting\<close>, changing the dicts in place. It raises only when
  the root is not a dict, before any dict has been changed.
\<close>

fun assign_path_ref :: "heap \<Rightarrow> val \<Rightarrow> string list \<Rightarrow> val \<Rightarrow> exn + heap" where
  "assign_path_ref h d [] v = Inl IndexError"
| "assign_path_ref h d [k] v = setitem_ref h d k v"
| "assign_path_ref h d (k # ks) v =
     (case contains_ref h d k of
        Inl e \<Rightarrow> Inl e
      | Inr present \<Rightarrow>
          (case (if \<not> present then Inr True
                 else (case getitem_ref h d k of
                         Inl e \<Rightarrow> Inl e
                       | Inr x \<Rightarrow> Inr (\<not> is_dict_ref x))) of
             Inl e \<Rightarrow> Inl e
           | Inr reset \<Rightarrow>
               (case (if reset
                      then (case new_dict h of (a, h1) \<Rightarrow> setitem_ref h1 d k (VDict a))
                      else Inr h) of
                  Inl e \<Rightarrow> Inl e
                | Inr h1 \<Rightarrow>
                    (case getitem_ref h1 d k of
                       Inl e \<Rightarrow> Inl e
                     | Inr child \<Rightarrow> assign_path_ref h1 child ks v))))"

record ref_world =
  ref_files :: "string \<Rightarrow> settings_file option"
  ref_settings_cache :: "string \<Rightarrow> val"
  ref_last_modified :: "string \<Rightarrow> int"
  ref_heap :: heap
  ref_trace :: "event list"

definition init_ref :: "(string \<Rightarrow> settings_file option) \<Rightarrow> ref_world" where
  "init_ref fs =
     \<lparr>ref_files = fs, ref_settings_cache = (\<lambda>k. VNone), ref_last_modified = (\<lambda>k. 0),
      ref_heap = \<lparr>objs = (\<lambda>a. []), next_addr = 0\<rparr>, ref_trace = []\<rparr>"

definition emit_ref :: "event \<Rightarrow> ref_world \<Rightarrow> ref_world" where
  "emit_ref e w = w\<lparr>ref_trace := ref_trace w @ [e]\<rparr>"

text \<open>\<^verbatim>\<open>return {}\<close>: a new empty dict is allocated and returned.\<close>

definition return_empty_dict :: "ref_world \<Rightarrow> (exn + val) \<times> ref_world" where
  "return_empty_dict w =
     (case new_dict (ref_heap w) of (a, h1) \<Rightarrow> (Inr (VDict a), w\<lparr>ref_heap := h1\<rparr>))"

definition read_json_safely_ref :: "ref_world \<Rightarrow> string \<Rightarrow> (exn + val) \<times> ref_world" where
  "read_json_safely_ref w file_path =
     (case ref_files w file_path of
        None \<Rightarrow> return_empty_dict w
      | Some f \<Rightarrow>
          (let w1 = emit_ref (Opened file_path) w in
           case content f of
             Document j \<Rightarrow>
               (case load j (ref_heap w1) of (v, h1) \<Rightarrow> (Inr v, w1\<lparr>ref_heap := h1\<rparr>))
           | Fails e \<Rightarrow>
               if e = JSONDecodeError \<or> e = OSError
               then return_empty_dict (emit_ref (Logged WARNING) w1)
               else (Inl e, w1)))"

text \<open>
  \<^verbatim>\<open>_write_json_safely\<close>: when the system lets the write through, \<^verbatim>\<open>json.dump\<close> runs on
  the document; its ValueError is not an OSError and leaves the function. The cache
  entry becomes the dict that was passed in.
\<close>

definition write_json_safely_ref ::
  "ref_world \<Rightarrow> string \<Rightarrow> val \<Rightarrow> string \<Rightarrow> write_outcome \<Rightarrow> (exn + bool) \<times> ref_world" where
  "write_json_safely_ref w file_path data version wr =
     (case wr of
        WriteFails \<Rightarrow> (Inr False, emit_ref (Logged ERROR) w)
      | WriteOk t \<Rightarrow>
          (case dump (next_addr (ref_heap w)) (ref_heap w) data of
             Inl e \<Rightarrow> (Inl e, w)
           | Inr j \<Rightarrow>
               (Inr True,
                emit_ref (Logged INFO)
                  (w\<lparr>ref_files := (ref_files w)(file_path \<mapsto> \<lparr>content = Document j, mtime = t\<rparr>),
                     ref_settings_cache := (ref_settings_cache w)(version := data),
                     ref_last_modified := (ref_last_modified w)(version := t)\<rparr>))))"

definition get_settings_with_cache_ref :: "ref_world \<Rightarrow> string \<Rightarrow> (exn + val) \<times> ref_world" where
  "get_settings_with_cache_ref w yim_version =
     (let vk = version_key yim_version; file_path = get_file_path yim_version in
      case ref_files w file_path of
        None \<Rightarrow> return_empty_dict w
      | Some f \<Rightarrow>
          (let current_mtime = mtime f in
           if ref_settings_cache w vk = VNone \<or> ref_last_modified w vk \<noteq> current_mtime
           then (case read_json_safely_ref w file_path of
                   (Inl e, w1) \<Rightarrow> (Inl e, w1)
                 | (Inr v, w1) \<Rightarrow>
                     (Inr v,
                      w1\<lparr>ref_settings_cache := (ref_settings_cache w1)(vk := v),
                         ref_last_modified := (ref_last_modified w1)(vk := current_mtime)\<rparr>))
           else (Inr (ref_settings_cache w vk), w)))"

text \<open>\<^verbatim>\<open>get_setting\<close> returns what it finds in the cached document: for a dict, the
  dict itself.\<close>

definition get_setting_ref ::
  "ref_world \<Rightarrow> string \<Rightarrow> val \<Rightarrow> string \<Rightarrow> (exn + val) \<times> ref_world" where
  "get_setting_ref w key_path dflt yim_version =
     (case get_settings_with_cache_ref w yim_version of
        (Inl e, w1) \<Rightarrow> (Inl e, w1)
      | (Inr data, w1) \<Rightarrow>
          (case walk_ref (ref_heap w1) data (split_dot key_path) of
             Inr v \<Rightarrow> (Inr v, w1)
           | Inl e \<Rightarrow> if e = KeyError \<or> e = TypeError then (Inr dflt, w1) else (Inl e, w1)))"

text \<open>\<^verbatim>\<open>set_setting\<close> stores the value it is given: for a dict, the dict itself.\<close>

definition set_setting_ref ::
  "ref_world \<Rightarrow> string \<Rightarrow> val \<Rightarrow> string \<Rightarrow> write_outcome \<Rightarrow> (exn + bool) \<times> ref_world" where
  "set_setting_ref w key_path v yim_version wr =
     (let vk = version_key yim_version; file_path = get_file_path yim_version in
      case get_settings_with_cache_ref w yim_version of
        (Inl e, w1) \<Rightarrow> (Inl e, w1)
      | (Inr data, w1) \<Rightarrow>
          (case assign_path_ref (ref_heap w1) data (split_dot key_path) v of
             Inl e \<Rightarrow> (Inr False, emit_ref (Logged ERROR) w1)
           | Inr h1 \<Rightarrow> write_json_safely_ref (w1\<lparr>ref_heap := h1\<rparr>) file_path data vk wr))"

definition get_auto_reload_changed_scripts_ref ::
  "ref_world \<Rightarrow> string \<Rightarrow> (exn + val) \<times> ref_world" where
  "get_auto_reload_changed_scripts_ref w yim_version =
     get_setting_ref w ''lua.auto_reload_changed_scripts'' (VBool False) yim_version"

definition set_auto_reload_changed_scripts_ref ::
  "ref_world \<Rightarrow> val \<Rightarrow> string \<Rightarrow> write_outcome \<Rightarrow> (exn + bool) \<times> ref_world" where
  "set_auto_reload_changed_scripts_ref w v yim_version wr =
     set_setting_ref w ''lua.auto_reload_changed_scripts'' v yim_version wr"

definition sync_auto_reload_settings_ref ::
  "ref_world \<Rightarrow> string \<Rightarrow> string \<Rightarrow> write_outcome \<Rightarrow> (exn + bool) \<times> ref_world" where
  "sync_auto_reload_settings_ref w source_version target_version wr =
     (if source_version = target_version
      then (Inr True, emit_ref (Logged WARNING) w)
      else (case get_auto_reload_changed_scripts_ref w source_version of
              (Inl e, w1) \<Rightarrow> (Inl e, w1)
            | (Inr v, w1) \<Rightarrow> set_auto_reload_changed_scripts_ref w1 v target_version wr))"

section \<open>Properties of the traversal\<close>

lemma split_dot_not_Nil: "split_dot s \<noteq> []"
  by (induction s) (auto split: list.splits)

lemma setitem_Inr: "setitem d k v = Inr d' \<Longrightarrow> \<exists>kvs. d = JObj kvs \<and> d' = JObj (AList.update k v kvs)"
  by (cases d) auto

lemma assign_path_obj:
  "assign_path (JObj kvs) (k # k' # ks) v =
     (case assign_path (child_of kvs k) (k' # ks) v of
        Inl e \<Rightarrow> Inl e
      | Inr child' \<Rightarrow> Inr (JObj (AList.update k child' kvs)))"
proof (cases "map_of kvs k")
  case None
  then show ?thesis by (simp add: child_of_def update_conv' split: sum.splits)
next
  case (Some x)
  then show ?thesis
    by (cases x) (simp_all add: child_of_def update_conv' split: sum.splits)
qed

lemma assign_path_not_dict:
  "\<not> is_dict d \<Longrightarrow> \<exists>e. assign_path d ks v = Inl e"
proof (cases ks)
  case Nil then show ?thesis by simp
next
  case (Cons k ks')
  assume nd: "\<not> is_dict d"
  show ?thesis
  proof (cases ks')
    case Nil
    with Cons nd show ?thesis by (cases d) simp_all
  next
    case (Cons k' ks'')
    with \<open>ks = k # ks'\<close> nd show ?thesis by (cases d) (simp_all split: sum.splits)
  qed
qed


declare assign_path.simps(3) [simp del]

lemma assign_path_is_dict: "assign_path d ks v = Inr d' \<Longrightarrow> is_dict d \<and> is_dict d'"
proof (cases "is_dict d")
  case False
  assume "assign_path d ks v = Inr d'"
  with assign_path_not_dict [OF False, of ks v] show ?thesis by auto
next
  case True
  assume a: "assign_path d ks v = Inr d'"
  from True obtain kvs where d: "d = JObj kvs" by (cases d) auto
  show ?thesis
  proof (cases ks)
    case Nil with a show ?thesis by simp
  next
    case (Cons k ks')
    with a d show ?thesis
      by (cases ks') (auto simp: assign_path_obj split: sum.splits)
  qed
qed

lemma assign_path_Cons2:
  assumes "assign_path d (k # k' # ks) v = Inr d'"
  obtains kvs child' where "d = JObj kvs"
    and "assign_path (child_of kvs k) (k' # ks) v = Inr child'"
    and "d' = JObj (AList.update k child' kvs)"
proof -
  from assms assign_path_is_dict obtain kvs where d: "d = JObj kvs"
    by (cases d) fastforce+
  with assms that show thesis
    by (auto simp: assign_path_obj split: sum.splits)
qed

lemma assign_path_walk: "assign_path d ks v = Inr d' \<Longrightarrow> walk d' ks = Inr v"
proof (induction ks arbitrary: d d')
  case Nil then show ?case by simp
next
  case (Cons k ks')
  show ?case
  proof (cases ks')
    case Nil
    with Cons.prems show ?thesis by (auto dest!: setitem_Inr simp: update_conv')
  next
    case (Cons k' ks'')
    with Cons.prems obtain kvs child' where d: "d = JObj kvs"
      and c: "assign_path (child_of kvs k) ks' v = Inr child'"
      and d': "d' = JObj (AList.update k child' kvs)"
      by (auto elim: assign_path_Cons2)
    from Cons.IH [OF c] d' show ?thesis by (simp add: update_conv')
  qed
qed

lemma write_json_safely_True:
  assumes "write_json_safely w p data vk wr = (True, w')"
  obtains t where "wr = WriteOk t"
    and "w' = emit (Logged INFO)
             (w\<lparr>files := (files w)(p \<mapsto> \<lparr>content = Document data, mtime = t\<rparr>),
                settings_cache := (settings_cache w)(vk := data),
                last_modified := (last_modified w)(vk := t)\<rparr>)"
  using assms by (cases wr) (auto simp: write_json_safely_def)

lemma write_json_safely_False:
  "write_json_safely w p data vk wr = (False, w') \<longleftrightarrow> wr = WriteFails \<and> w' = emit (Logged ERROR) w"
  by (cases wr) (auto simp: write_json_safely_def)

lemma cache_hit:
  assumes "files w (get_file_path ver) = Some f"
    and "settings_cache w (version_key ver) \<noteq> JNull"
    and "last_modified w (version_key ver) = mtime f"
  shows "get_settings_with_cache w ver = (Inr (settings_cache w (version_key ver)), w)"
  using assms by (simp add: get_settings_with_cache_def)


section \<open>The settings store\<close>


lemmas settings_defs =
  set_setting_def get_setting_def get_settings_with_cache_def read_json_safely_def
  write_json_safely_def emit_def init_def version_key_def get_file_path_def
  SETTINGS_FILE_PATHS_def YIMMENU_SETTINGS_FILE_PATH_def YIMMENUV2_SETTINGS_FILE_PATH_def



lemma walk_Inl: "walk d ks = Inl e \<Longrightarrow> e = KeyError \<or> e = TypeError"
proof (induction ks arbitrary: d)
  case Nil then show ?case by simp
next
  case (Cons k ks)
  then show ?case by (cases d) (auto split: option.splits sum.splits)
qed

lemma path_missing_iff: "path_missing d ks \<longleftrightarrow> (\<exists>e. walk d ks = Inl e)"
proof (induction ks arbitrary: d)
  case Nil then show ?case by simp
next
  case (Cons k ks)
  then show ?case by (cases d) (auto split: option.splits sum.splits)
qed

text \<open>
  C2: for every world in which the read of the installation's document gives a document
  (of any shape), and every key path: when a segment of the path is absent or is looked
  up in a value that is not a mapping, \<^verbatim>\<open>get_setting\<close> returns the supplied default;
  otherwise it returns the value at the path; in both cases it returns a value and
  raises nothing.
\<close>

theorem get_setting_default_on_missing:
  assumes "get_settings_with_cache w yim_version = (Inr data, w1)"
  shows "(path_missing data (split_dot key_path)
            \<longrightarrow> get_setting w key_path dflt yim_version = (Inr dflt, w1))
       \<and> (\<not> path_missing data (split_dot key_path)
            \<longrightarrow> get_setting w key_path dflt yim_version = (walk data (split_dot key_path), w1))
       \<and> (\<exists>x. get_setting w key_path dflt yim_version = (Inr x, w1))"
proof (cases "walk data (split_dot key_path)")
  case (Inl e)
  then have "e = KeyError \<or> e = TypeError" by (rule walk_Inl)
  with Inl assms show ?thesis
    by (auto simp: get_setting_def path_missing_iff)
next
  case (Inr x)
  with assms show ?thesis
    by (auto simp: get_setting_def path_missing_iff)
qed

theorem get_setting_default_on_missing_witness:
  "path_missing (JObj [(''a'', JObj [(''b'', JObj [(''c'', JInt 42)])])]) (split_dot ''a.b.x'')
   \<and> fst (get_setting
             (init [YIMMENU_SETTINGS_FILE_PATH \<mapsto>
                     \<lparr>content = Document (JObj [(''a'', JObj [(''b'', JObj [(''c'', JInt 42)])])]),
                      mtime = 5\<rparr>])
             ''a.b.x'' (JStr ''none'') ''v1'') = Inr (JStr ''none'')
   \<and> \<not> path_missing (JObj [(''a'', JObj [(''b'', JObj [(''c'', JInt 42)])])]) (split_dot ''a.b.c'')
   \<and> fst (get_setting
             (init [YIMMENU_SETTINGS_FILE_PATH \<mapsto>
                     \<lparr>content = Document (JObj [(''a'', JObj [(''b'', JObj [(''c'', JInt 42)])])]),
                      mtime = 5\<rparr>])
             ''a.b.c'' (JStr ''none'') ''v1'') = Inr (JInt 42)"
proof -
  let ?doc = "JObj [(''a'', JObj [(''b'', JObj [(''c'', JInt 42)])])]"
  let ?w = "init [YIMMENU_SETTINGS_FILE_PATH \<mapsto> \<lparr>content = Document ?doc, mtime = 5\<rparr>]"
  let ?R = "get_settings_with_cache ?w ''v1''"
  have "fst ?R = Inr ?doc"
    by (simp add: settings_defs Let_def)
  then have h: "?R = (Inr ?doc, snd ?R)"
    by (simp add: prod_eq_iff)
  have m: "path_missing ?doc (split_dot ''a.b.x'')" by simp
  have p: "\<not> path_missing ?doc (split_dot ''a.b.c'')" by simp
  have wk: "walk ?doc (split_dot ''a.b.c'') = Inr (JInt 42)" by simp
  from get_setting_default_on_missing [OF h, of "''a.b.x''" "JStr ''none''"] m
  have 1: "fst (get_setting ?w ''a.b.x'' (JStr ''none'') ''v1'') = Inr (JStr ''none'')"
    by simp
  from get_setting_default_on_missing [OF h, of "''a.b.c''" "JStr ''none''"] p wk
  have 2: "fst (get_setting ?w ''a.b.c'' (JStr ''none'') ''v1'') = Inr (JInt 42)"
    by simp
  from m p 1 2 show ?thesis by blast
qed

lemma child_of_is_dict: "\<exists>c. child_of kvs k = JObj c"
  by (auto simp: child_of_def split: option.splits json.splits)

lemma assign_path_step:
  "ks \<noteq> [] \<Longrightarrow>
   assign_path (JObj kvs) (k # ks) v =
     (case assign_path (child_of kvs k) ks v of
        Inl e \<Rightarrow> Inl e
      | Inr child' \<Rightarrow> Inr (JObj (AList.update k child' kvs)))"
  by (cases ks) (simp_all add: assign_path_obj)

lemma assign_path_total: "ks \<noteq> [] \<Longrightarrow> \<exists>d'. assign_path (JObj kvs) ks v = Inr d'"
proof (induction ks arbitrary: kvs)
  case Nil then show ?case by simp
next
  case (Cons k ks)
  show ?case
  proof (cases "ks = []")
    case True then show ?thesis by simp
  next
    case False
    obtain c where c: "child_of kvs k = JObj c" using child_of_is_dict by blast
    from Cons.IH [OF False, of c] obtain d' where "assign_path (JObj c) ks v = Inr d'" by blast
    with False c show ?thesis by (simp add: assign_path_step)
  qed
qed

lemma walk_snoc_dict:
  "walk x (pre @ [k]) = Inr s \<Longrightarrow> \<exists>c. x = JObj c"
  by (cases pre; cases x) (auto split: sum.splits)

lemma assign_path_replaces:
  assumes "walk (JObj kvs) (pre @ [k]) = Inr s" and "\<not> is_dict s" and "rest \<noteq> []"
    and "assign_path (JObj kvs) (pre @ k # rest) v = Inr d'"
  shows "walk d' (pre @ [k]) = assign_path (JObj []) rest v"
  using assms
proof (induction pre arbitrary: kvs d')
  case Nil
  from Nil.prems(1) have m: "map_of kvs k = Some s" by (simp split: option.splits)
  with Nil.prems(2) have c: "child_of kvs k = JObj []"
    by (cases s) (simp_all add: child_of_def)
  from Nil.prems(3,4) c show ?case
    by (auto simp: assign_path_step update_conv' split: sum.splits)
next
  case (Cons p pre)
  from Cons.prems(1) obtain x where m: "map_of kvs p = Some x"
    and wx: "walk x (pre @ [k]) = Inr s"
    by (auto split: option.splits)
  from wx obtain c where x: "x = JObj c" using walk_snoc_dict by blast
  with m have co: "child_of kvs p = JObj c" by (simp add: child_of_def)
  from Cons.prems(4) co obtain child' where
    a: "assign_path (JObj c) (pre @ k # rest) v = Inr child'"
    and d': "d' = JObj (AList.update p child' kvs)"
    by (auto simp: assign_path_step split: sum.splits)
  from Cons.IH [OF _ Cons.prems(2,3) a] wx x
  have "walk child' (pre @ [k]) = assign_path (JObj []) rest v" by simp
  with d' show ?case by (simp add: update_conv')
qed

lemma get_settings_with_cache_exists:
  assumes "files w (get_file_path ver) = Some f"
    and "get_settings_with_cache w ver = (Inr data, w1)"
  shows "files w1 = files w \<and> settings_cache w1 (version_key ver) = data
         \<and> last_modified w1 (version_key ver) = mtime f"
  using assms
  by (auto simp: get_settings_with_cache_def read_json_safely_def emit_def Let_def
      split: if_splits content.splits prod.splits sum.splits)

lemma get_settings_with_cache_missing:
  "files w (get_file_path ver) = None \<Longrightarrow> get_settings_with_cache w ver = (Inr (JObj []), w)"
  by (simp add: get_settings_with_cache_def)

lemma get_settings_with_cache_files:
  "get_settings_with_cache w ver = (r, w1) \<Longrightarrow> files w1 = files w"
  by (auto simp: get_settings_with_cache_def read_json_safely_def emit_def Let_def
      split: if_splits content.splits prod.splits sum.splits option.splits)

lemma set_setting_WriteOk:
  assumes "get_settings_with_cache w ver = (Inr data, w1)"
    and "assign_path data (split_dot key_path) v = Inr data'"
    and "set_setting w key_path v ver (WriteOk t) = (r, w')"
  shows "r = Inr True
    \<and> files w' = (files w)(get_file_path ver \<mapsto> \<lparr>content = Document data', mtime = t\<rparr>)
    \<and> settings_cache w' = (settings_cache w1)(version_key ver := data')
    \<and> last_modified w' = (last_modified w1)(version_key ver := t)"
  using assms get_settings_with_cache_files [OF assms(1)]
  by (auto simp: set_setting_def write_json_safely_def emit_def Let_def)

text \<open>
  C8: let the installation's document be a mapping and let the write go through. Then
  \<^verbatim>\<open>set_setting\<close> succeeds and writes a document \<open>d'\<close> to the file and the cache such that,
  for every intermediate segment of the key path at which the old document holds a
  value that is not a mapping, \<open>d'\<close> holds there what setting the rest of the path in a
  fresh empty mapping gives, and the leaf holds the new value. In particular, when the
  document maps \<^verbatim>\<open>"lua"\<close> to \<^verbatim>\<open>true\<close>, setting \<^verbatim>\<open>"lua.auto_reload_scripts"\<close> to \<^verbatim>\<open>false\<close>
  gives a document that maps \<^verbatim>\<open>"lua"\<close> to \<^verbatim>\<open>{"auto_reload_scripts": false}\<close>.
\<close>

theorem set_setting_replaces_scalar:
  assumes "get_settings_with_cache w yim_version = (Inr (JObj kvs), w1)"
    and "set_setting w key_path v yim_version (WriteOk t) = (r, w')"
  shows "r = Inr True \<and>
    (\<exists>d'. files w' (get_file_path yim_version) = Some \<lparr>content = Document d', mtime = t\<rparr>
        \<and> settings_cache w' (version_key yim_version) = d'
        \<and> (\<forall>pre k rest s.
              split_dot key_path = pre @ k # rest \<and> rest \<noteq> []
              \<and> walk (JObj kvs) (pre @ [k]) = Inr s \<and> \<not> is_dict s
              \<longrightarrow> walk d' (pre @ [k]) = assign_path (JObj []) rest v
                  \<and> walk d' (split_dot key_path) = Inr v)
        \<and> (key_path = ''lua.auto_reload_scripts'' \<and> v = JBool False
              \<and> map_of kvs ''lua'' = Some (JBool True)
              \<longrightarrow> getitem d' ''lua'' = Inr (JObj [(''auto_reload_scripts'', JBool False)])))"
proof -
  from assign_path_total [OF split_dot_not_Nil, of kvs key_path v]
  obtain d' where a: "assign_path (JObj kvs) (split_dot key_path) v = Inr d'" by blast
  from set_setting_WriteOk [OF assms(1) a assms(2)]
  have r: "r = Inr True"
    and f: "files w' (get_file_path yim_version) = Some \<lparr>content = Document d', mtime = t\<rparr>"
    and c: "settings_cache w' (version_key yim_version) = d'"
    by simp_all
  have g: "walk d' (pre @ [k]) = assign_path (JObj []) rest v \<and> walk d' (split_dot key_path) = Inr v"
    if "split_dot key_path = pre @ k # rest" "rest \<noteq> []"
       "walk (JObj kvs) (pre @ [k]) = Inr s" "\<not> is_dict s" for pre k rest s
    using assign_path_replaces [OF that(3,4,2), of v d'] a that(1) assign_path_walk [OF a]
    by simp
  have p: "getitem d' ''lua'' = Inr (JObj [(''auto_reload_scripts'', JBool False)])"
    if "key_path = ''lua.auto_reload_scripts''" "v = JBool False"
       "map_of kvs ''lua'' = Some (JBool True)"
    using a that by (auto simp: assign_path_obj child_of_def update_conv')
  from r f c g p show ?thesis by blast
qed

theorem set_setting_replaces_scalar_witness:
  "fst (set_setting
          (init [YIMMENU_SETTINGS_FILE_PATH \<mapsto>
                  \<lparr>content = Document (JObj [(''lua'', JBool True)]), mtime = 1\<rparr>])
          ''lua.auto_reload_scripts'' (JBool False) ''v1'' (WriteOk 2)) = Inr True
   \<and> (\<exists>d'. files (snd (set_setting
          (init [YIMMENU_SETTINGS_FILE_PATH \<mapsto>
                  \<lparr>content = Document (JObj [(''lua'', JBool True)]), mtime = 1\<rparr>])
          ''lua.auto_reload_scripts'' (JBool False) ''v1'' (WriteOk 2))) (get_file_path ''v1'')
          = Some \<lparr>content = Document d', mtime = 2\<rparr>
        \<and> walk d' [''lua''] = Inr (JObj [(''auto_reload_scripts'', JBool False)])
        \<and> walk d' [''lua'', ''auto_reload_scripts''] = Inr (JBool False))"
proof -
  let ?w = "init [YIMMENU_SETTINGS_FILE_PATH \<mapsto>
                  \<lparr>content = Document (JObj [(''lua'', JBool True)]), mtime = 1\<rparr>]"
  let ?R = "get_settings_with_cache ?w ''v1''"
  let ?S = "set_setting ?w ''lua.auto_reload_scripts'' (JBool False) ''v1'' (WriteOk 2)"
  have "fst ?R = Inr (JObj [(''lua'', JBool True)])"
    by (simp add: settings_defs Let_def)
  then have h: "?R = (Inr (JObj [(''lua'', JBool True)]), snd ?R)"
    by (simp add: prod_eq_iff)
  have s: "?S = (fst ?S, snd ?S)" by simp
  have sp: "split_dot ''lua.auto_reload_scripts'' = [] @ ''lua'' # [''auto_reload_scripts'']"
    by simp
  have sc: "walk (JObj [(''lua'', JBool True)]) ([] @ [''lua'']) = Inr (JBool True)"
    by simp
  from set_setting_replaces_scalar [OF h s] obtain d' where
    1: "fst ?S = Inr True"
    and 2: "files (snd ?S) (get_file_path ''v1'') = Some \<lparr>content = Document d', mtime = 2\<rparr>"
    and 3: "\<And>pre k rest s.
              split_dot ''lua.auto_reload_scripts'' = pre @ k # rest \<and> rest \<noteq> []
              \<and> walk (JObj [(''lua'', JBool True)]) (pre @ [k]) = Inr s \<and> \<not> is_dict s
              \<Longrightarrow> walk d' (pre @ [k]) = assign_path (JObj []) rest (JBool False)
                  \<and> walk d' (split_dot ''lua.auto_reload_scripts'') = Inr (JBool False)"
    by blast
  from 3 [of "[]" "''lua''" "[''auto_reload_scripts'']" "JBool True"] sp sc
  have "walk d' ([] @ [''lua'']) = assign_path (JObj []) [''auto_reload_scripts''] (JBool False)
        \<and> walk d' (split_dot ''lua.auto_reload_scripts'') = Inr (JBool False)"
    by simp
  then have 4: "walk d' [''lua''] = Inr (JObj [(''auto_reload_scripts'', JBool False)])"
    and 5: "walk d' [''lua'', ''auto_reload_scripts''] = Inr (JBool False)"
    by simp_all
  from 1 2 4 5 show ?thesis by blast
qed





text \<open>
  C6: when the installation has no settings file and the write goes through,
  \<^verbatim>\<open>ensure_settings_file_exists\<close> makes the file hold exactly the fixed default document
  (and changes no other file); when a settings file exists, whatever its content, readable
  or not, the call changes nothing at all.
\<close>

theorem ensure_settings_file_exists_default:
  "(files w (get_file_path yim_version) = None \<longrightarrow>
      files (ensure_settings_file_exists w yim_version (WriteOk t)) =
        (files w)(get_file_path yim_version \<mapsto>
          \<lparr>content = Document
             (JObj [(''lua'', JObj [(''auto_reload_scripts'', JBool False),
                                   (''auto_reload_changed_scripts'', JBool False)]),
                    (''debug'', JObj [(''external_console'', JBool False)]),
                    (''theme'', JObj [(''light_mode'', JBool False)])]),
           mtime = t\<rparr>))
   \<and> (files w (get_file_path yim_version) \<noteq> None \<longrightarrow>
      ensure_settings_file_exists w yim_version wr = w)"
  by (auto simp: ensure_settings_file_exists_def write_json_safely_def emit_def
      default_settings_def Let_def)

theorem ensure_settings_file_exists_default_witness:
  "files (init Map.empty) (get_file_path ''v2'') = None
   \<and> files (ensure_settings_file_exists (init Map.empty) ''v2'' (WriteOk 4))
        YIMMENUV2_SETTINGS_FILE_PATH =
       Some \<lparr>content = Document
             (JObj [(''lua'', JObj [(''auto_reload_scripts'', JBool False),
                                   (''auto_reload_changed_scripts'', JBool False)]),
                    (''debug'', JObj [(''external_console'', JBool False)]),
                    (''theme'', JObj [(''light_mode'', JBool False)])]),
           mtime = 4\<rparr>
   \<and> files (init [YIMMENU_SETTINGS_FILE_PATH \<mapsto>
                   \<lparr>content = Fails JSONDecodeError, mtime = 1\<rparr>])
         (get_file_path ''v1'') \<noteq> None
   \<and> ensure_settings_file_exists
         (init [YIMMENU_SETTINGS_FILE_PATH \<mapsto> \<lparr>content = Fails JSONDecodeError, mtime = 1\<rparr>])
         ''v1'' (WriteOk 4)
       = init [YIMMENU_SETTINGS_FILE_PATH \<mapsto> \<lparr>content = Fails JSONDecodeError, mtime = 1\<rparr>]"
proof -
  let ?w2 = "init Map.empty"
  let ?w1 = "init [YIMMENU_SETTINGS_FILE_PATH \<mapsto> \<lparr>content = Fails JSONDecodeError, mtime = 1\<rparr>]"
  have a: "files ?w2 (get_file_path ''v2'') = None"
    by (simp add: init_def)
  have b: "files ?w1 (get_file_path ''v1'') \<noteq> None"
    by (simp add: settings_defs)
  have p: "get_file_path ''v2'' = YIMMENUV2_SETTINGS_FILE_PATH"
    by (simp add: settings_defs)
  from ensure_settings_file_exists_default [of ?w2 "''v2''" 4] a p
  have 1: "files (ensure_settings_file_exists ?w2 ''v2'' (WriteOk 4))
        YIMMENUV2_SETTINGS_FILE_PATH =
       Some \<lparr>content = Document
             (JObj [(''lua'', JObj [(''auto_reload_scripts'', JBool False),
                                   (''auto_reload_changed_scripts'', JBool False)]),
                    (''debug'', JObj [(''external_console'', JBool False)]),
                    (''theme'', JObj [(''light_mode'', JBool False)])]),
           mtime = 4\<rparr>"
    by simp
  from ensure_settings_file_exists_default [of ?w1 "''v1''" 4 "WriteOk 4"] b
  have 2: "ensure_settings_file_exists ?w1 ''v1'' (WriteOk 4) = ?w1"
    by blast
  from a b 1 2 show ?thesis by blast
qed

lemma read_reopens:
  assumes "files w (get_file_path ver) = Some f"
    and "settings_cache w (version_key ver) = JNull \<or> last_modified w (version_key ver) \<noteq> mtime f"
  shows "\<exists>es. trace (snd (get_settings_with_cache w ver)) = trace w @ Opened (get_file_path ver) # es"
  using assms
  by (auto simp: get_settings_with_cache_def read_json_safely_def emit_def Let_def
      split: content.splits)

lemma read_document:
  assumes "files w (get_file_path ver) = Some f" and "content f = Document j"
    and "settings_cache w (version_key ver) = JNull \<or> last_modified w (version_key ver) \<noteq> mtime f"
  shows "fst (get_settings_with_cache w ver) = Inr j"
  using assms
  by (auto simp: get_settings_with_cache_def read_json_safely_def emit_def Let_def)

text \<open>
  A settings file that holds \<^verbatim>\<open>null\<close> is loaded as \<^verbatim>\<open>None\<close>, which is also the value of
  an empty cache entry: after a first read the recorded timestamp equals the file's
  modification time, and the second read opens the file again all the same.
\<close>

theorem reread_despite_equal_mtime_counterexample:
  "last_modified
     (snd (get_settings_with_cache
             (init [YIMMENU_SETTINGS_FILE_PATH \<mapsto> \<lparr>content = Document JNull, mtime = 3\<rparr>]) ''v1''))
     ''v1'' = 3
   \<and> files
     (snd (get_settings_with_cache
             (init [YIMMENU_SETTINGS_FILE_PATH \<mapsto> \<lparr>content = Document JNull, mtime = 3\<rparr>]) ''v1''))
     YIMMENU_SETTINGS_FILE_PATH = Some \<lparr>content = Document JNull, mtime = 3\<rparr>
   \<and> trace
     (snd (get_settings_with_cache
        (snd (get_settings_with_cache
             (init [YIMMENU_SETTINGS_FILE_PATH \<mapsto> \<lparr>content = Document JNull, mtime = 3\<rparr>]) ''v1''))
        ''v1''))
     = [Opened YIMMENU_SETTINGS_FILE_PATH, Opened YIMMENU_SETTINGS_FILE_PATH]"
  by (simp add: settings_defs Let_def)

text \<open>
  C4, amended: when the settings file exists, a read returns the cache entry and leaves
  the world as it is (the file is not opened) iff the cache entry is not \<^verbatim>\<open>None\<close> and the
  recorded timestamp equals the file's modification time; in the other case the read
  opens the file. If, after a read that returned a document, the file is replaced from
  outside by one with a different modification time that holds a document, the next
  read returns that document. A read of a missing file returns an empty mapping and
  leaves the world, and so the cache entry, as it is.
\<close>

theorem cache_valid_iff_populated_and_mtime_equal:
  "(files w (get_file_path ver) = Some f \<longrightarrow>
      ((get_settings_with_cache w ver = (Inr (settings_cache w (version_key ver)), w)) \<longleftrightarrow>
       (settings_cache w (version_key ver) \<noteq> JNull
        \<and> last_modified w (version_key ver) = mtime f))
      \<and> (settings_cache w (version_key ver) = JNull
           \<or> last_modified w (version_key ver) \<noteq> mtime f \<longrightarrow>
          (\<exists>es. trace (snd (get_settings_with_cache w ver))
                 = trace w @ Opened (get_file_path ver) # es)))
   \<and> (files w (get_file_path ver) = Some f
        \<and> get_settings_with_cache w ver = (Inr d, w1)
        \<and> mtime f' \<noteq> mtime f \<and> content f' = Document j \<longrightarrow>
        fst (get_settings_with_cache (w1\<lparr>files := (files w1)(get_file_path ver \<mapsto> f')\<rparr>) ver)
          = Inr j)
   \<and> (files w (get_file_path ver) = None \<longrightarrow>
        get_settings_with_cache w ver = (Inr (JObj []), w))"
proof -
  have a: "(get_settings_with_cache w ver = (Inr (settings_cache w (version_key ver)), w)) \<longleftrightarrow>
       (settings_cache w (version_key ver) \<noteq> JNull
        \<and> last_modified w (version_key ver) = mtime f)"
    if e: "files w (get_file_path ver) = Some f"
  proof
    assume h: "get_settings_with_cache w ver = (Inr (settings_cache w (version_key ver)), w)"
    show "settings_cache w (version_key ver) \<noteq> JNull
        \<and> last_modified w (version_key ver) = mtime f"
    proof (rule ccontr)
      assume "\<not> (settings_cache w (version_key ver) \<noteq> JNull
        \<and> last_modified w (version_key ver) = mtime f)"
      then have "settings_cache w (version_key ver) = JNull
           \<or> last_modified w (version_key ver) \<noteq> mtime f" by blast
      from read_reopens [OF e this] h show False by simp
    qed
  next
    assume "settings_cache w (version_key ver) \<noteq> JNull
        \<and> last_modified w (version_key ver) = mtime f"
    with e show "get_settings_with_cache w ver = (Inr (settings_cache w (version_key ver)), w)"
      by (simp add: cache_hit)
  qed
  have b: "fst (get_settings_with_cache (w1\<lparr>files := (files w1)(get_file_path ver \<mapsto> f')\<rparr>) ver)
          = Inr j"
    if e: "files w (get_file_path ver) = Some f"
      and r: "get_settings_with_cache w ver = (Inr d, w1)"
      and m: "mtime f' \<noteq> mtime f" and c: "content f' = Document j"
  proof -
    from get_settings_with_cache_exists [OF e r]
    have "last_modified w1 (version_key ver) = mtime f" by simp
    with m c show ?thesis
      using read_document [of "w1\<lparr>files := (files w1)(get_file_path ver \<mapsto> f')\<rparr>" ver f' j]
      by simp
  qed
  from a b read_reopens [of w ver f] get_settings_with_cache_missing [of w ver]
  show ?thesis by blast
qed

theorem cache_valid_iff_populated_and_mtime_equal_witness:
  "get_settings_with_cache
     (snd (get_settings_with_cache
        (init [YIMMENU_SETTINGS_FILE_PATH \<mapsto>
                \<lparr>content = Document (JObj [(''x'', JInt 1)]), mtime = 1\<rparr>]) ''v1'')) ''v1''
   = (Inr (JObj [(''x'', JInt 1)]),
      snd (get_settings_with_cache
        (init [YIMMENU_SETTINGS_FILE_PATH \<mapsto>
                \<lparr>content = Document (JObj [(''x'', JInt 1)]), mtime = 1\<rparr>]) ''v1''))
   \<and> fst (get_settings_with_cache
        ((snd (get_settings_with_cache
           (init [YIMMENU_SETTINGS_FILE_PATH \<mapsto>
                   \<lparr>content = Document (JObj [(''x'', JInt 1)]), mtime = 1\<rparr>]) ''v1''))
         \<lparr>files := (files (snd (get_settings_with_cache
           (init [YIMMENU_SETTINGS_FILE_PATH \<mapsto>
                   \<lparr>content = Document (JObj [(''x'', JInt 1)]), mtime = 1\<rparr>]) ''v1'')))
            (get_file_path ''v1'' \<mapsto> \<lparr>content = Document (JObj [(''x'', JInt 2)]), mtime = 2\<rparr>)\<rparr>)
        ''v1'') = Inr (JObj [(''x'', JInt 2)])
   \<and> get_settings_with_cache (init Map.empty) ''v1'' = (Inr (JObj []), init Map.empty)"
proof -
  let ?f = "\<lparr>content = Document (JObj [(''x'', JInt 1)]), mtime = 1\<rparr>"
  let ?f' = "\<lparr>content = Document (JObj [(''x'', JInt 2)]), mtime = 2\<rparr>"
  let ?w0 = "init [YIMMENU_SETTINGS_FILE_PATH \<mapsto> ?f]"
  let ?R = "get_settings_with_cache ?w0 ''v1''"
  let ?w1 = "snd ?R"
  have e0: "files ?w0 (get_file_path ''v1'') = Some ?f"
    by (simp add: settings_defs)
  have "fst ?R = Inr (JObj [(''x'', JInt 1)])"
    by (simp add: settings_defs Let_def)
  then have r: "?R = (Inr (JObj [(''x'', JInt 1)]), ?w1)"
    by (simp add: prod_eq_iff)
  have e1: "files ?w1 (get_file_path ''v1'') = Some ?f"
    by (simp add: settings_defs Let_def)
  have c1: "settings_cache ?w1 (version_key ''v1'') = JObj [(''x'', JInt 1)]"
    by (simp add: settings_defs Let_def)
  have l1: "last_modified ?w1 (version_key ''v1'') = mtime ?f"
    by (simp add: settings_defs Let_def)
  have n: "files (init Map.empty) (get_file_path ''v1'') = None"
    by (simp add: init_def)
  from cache_valid_iff_populated_and_mtime_equal [of ?w1 "''v1''" ?f] e1 c1 l1
  have 1: "get_settings_with_cache ?w1 ''v1'' = (Inr (JObj [(''x'', JInt 1)]), ?w1)"
    by simp
  from cache_valid_iff_populated_and_mtime_equal
         [of ?w0 "''v1''" ?f "JObj [(''x'', JInt 1)]" ?w1 ?f' "JObj [(''x'', JInt 2)]"] e0 r
  have 2: "fst (get_settings_with_cache
             (?w1\<lparr>files := (files ?w1)(get_file_path ''v1'' \<mapsto> ?f')\<rparr>) ''v1'')
           = Inr (JObj [(''x'', JInt 2)])"
    by simp
  from cache_valid_iff_populated_and_mtime_equal [of "init Map.empty" "''v1''"] n
  have 3: "get_settings_with_cache (init Map.empty) ''v1'' = (Inr (JObj []), init Map.empty)"
    by simp
  from 1 2 3 show ?thesis by blast
qed

text \<open>
  A settings file on which \<^verbatim>\<open>json.load\<close> raises JSONDecodeError is read once: the empty
  dict that \<^verbatim>\<open>_read_json_safely\<close> returns is stored in the cache with the file's
  modification time, and the second read of the unchanged file is answered from the
  cache; the file is opened once and one warning is logged.
\<close>

theorem malformed_result_is_cached_counterexample:
  "settings_cache
     (snd (get_settings_with_cache
        (init [YIMMENU_SETTINGS_FILE_PATH \<mapsto> \<lparr>content = Fails JSONDecodeError, mtime = 3\<rparr>])
        ''v1'')) ''v1'' = JObj []
   \<and> last_modified
     (snd (get_settings_with_cache
        (init [YIMMENU_SETTINGS_FILE_PATH \<mapsto> \<lparr>content = Fails JSONDecodeError, mtime = 3\<rparr>])
        ''v1'')) ''v1'' = 3
   \<and> trace
     (snd (get_settings_with_cache
        (snd (get_settings_with_cache
           (init [YIMMENU_SETTINGS_FILE_PATH \<mapsto> \<lparr>content = Fails JSONDecodeError, mtime = 3\<rparr>])
           ''v1''))
        ''v1''))
     = [Opened YIMMENU_SETTINGS_FILE_PATH, Logged WARNING]"
  by (simp add: settings_defs Let_def)

text \<open>
  C3, amended: a read that opens a settings file on which \<^verbatim>\<open>json.load\<close> raises
  JSONDecodeError returns an empty mapping and logs a warning; it stores the empty
  mapping in the cache together with the file's modification time, so the next read of
  the unchanged file returns the cached empty mapping without opening the file; the
  file is parsed again only once its modification time has changed.
\<close>

theorem malformed_file_read_as_empty_and_cached:
  assumes "files w (get_file_path ver) = Some f"
    and "content f = Fails JSONDecodeError"
    and "settings_cache w (version_key ver) = JNull \<or> last_modified w (version_key ver) \<noteq> mtime f"
    and "get_settings_with_cache w ver = (r, w1)"
  shows "r = Inr (JObj [])
    \<and> trace w1 = trace w @ [Opened (get_file_path ver), Logged WARNING]
    \<and> settings_cache w1 (version_key ver) = JObj []
    \<and> last_modified w1 (version_key ver) = mtime f
    \<and> files w1 = files w
    \<and> get_settings_with_cache w1 ver = (Inr (JObj []), w1)
    \<and> (\<forall>f'. mtime f' \<noteq> mtime f \<longrightarrow>
          (\<exists>es. trace (snd (get_settings_with_cache
                               (w1\<lparr>files := (files w1)(get_file_path ver \<mapsto> f')\<rparr>) ver))
                 = trace w1 @ Opened (get_file_path ver) # es))"
proof -
  from assms have 1: "r = Inr (JObj [])"
    and 2: "trace w1 = trace w @ [Opened (get_file_path ver), Logged WARNING]"
    and 3: "settings_cache w1 (version_key ver) = JObj []"
    and 4: "last_modified w1 (version_key ver) = mtime f"
    and 5: "files w1 = files w"
    by (auto simp: get_settings_with_cache_def read_json_safely_def emit_def Let_def)
  from assms(1) 3 4 5 have 6: "get_settings_with_cache w1 ver = (Inr (JObj []), w1)"
    using cache_hit [of w1 ver f] by simp
  have 7: "\<exists>es. trace (snd (get_settings_with_cache
                               (w1\<lparr>files := (files w1)(get_file_path ver \<mapsto> f')\<rparr>) ver))
                 = trace w1 @ Opened (get_file_path ver) # es"
    if "mtime f' \<noteq> mtime f" for f'
    using read_reopens [of "w1\<lparr>files := (files w1)(get_file_path ver \<mapsto> f')\<rparr>" ver f'] that 4
    by simp
  from 1 2 3 4 5 6 7 show ?thesis by blast
qed

theorem malformed_file_read_as_empty_and_cached_witness:
  "fst (get_settings_with_cache
        (init [YIMMENUV2_SETTINGS_FILE_PATH \<mapsto> \<lparr>content = Fails JSONDecodeError, mtime = 3\<rparr>])
        ''v2'') = Inr (JObj [])
   \<and> get_settings_with_cache
        (snd (get_settings_with_cache
          (init [YIMMENUV2_SETTINGS_FILE_PATH \<mapsto> \<lparr>content = Fails JSONDecodeError, mtime = 3\<rparr>])
          ''v2'')) ''v2''
     = (Inr (JObj []),
        snd (get_settings_with_cache
          (init [YIMMENUV2_SETTINGS_FILE_PATH \<mapsto> \<lparr>content = Fails JSONDecodeError, mtime = 3\<rparr>])
          ''v2''))"
proof -
  let ?f = "\<lparr>content = Fails JSONDecodeError, mtime = 3\<rparr>"
  let ?w = "init [YIMMENUV2_SETTINGS_FILE_PATH \<mapsto> ?f]"
  let ?R = "get_settings_with_cache ?w ''v2''"
  have e: "files ?w (get_file_path ''v2'') = Some ?f"
    by (simp add: settings_defs)
  have c: "content ?f = Fails JSONDecodeError" by simp
  have n: "settings_cache ?w (version_key ''v2'') = JNull
           \<or> last_modified ?w (version_key ''v2'') \<noteq> mtime ?f"
    by (simp add: init_def)
  have s: "?R = (fst ?R, snd ?R)" by simp
  from malformed_file_read_as_empty_and_cached [OF e c n s]
  show ?thesis by blast
qed

text \<open>
  A settings file that is not valid UTF-8 is not covered by the handler of
  \<^verbatim>\<open>_read_json_safely\<close>: the read raises UnicodeDecodeError, logs nothing and stores
  nothing.
\<close>

lemma undecodable_file_read_raises:
  assumes "files w (get_file_path ver) = Some f"
    and "content f = Fails UnicodeDecodeError"
    and "settings_cache w (version_key ver) = JNull \<or> last_modified w (version_key ver) \<noteq> mtime f"
  shows "get_settings_with_cache w ver
         = (Inl UnicodeDecodeError, emit (Opened (get_file_path ver)) w)"
  using assms
  by (auto simp: get_settings_with_cache_def read_json_safely_def Let_def)

section \<open>The script toggle service\<close>

lemma actual_filename_not_disabled: "filename @ ''.lua'' \<noteq> ''disabled''"
proof
  assume "filename @ ''.lua'' = ''disabled''"
  then have "last (filename @ ''.lua'') = last ''disabled''" by simp
  then show False by simp
qed

lemma removesuffix_lua: "removesuffix (b @ ''.lua'') ''.lua'' = b"
  by (simp add: removesuffix_def suffix_def)

lemma suffix_lua_removesuffix: "suffix ''.lua'' f \<Longrightarrow> removesuffix f ''.lua'' @ ''.lua'' = f"
  by (auto simp: suffix_def removesuffix_lua)

lemma map_removesuffix:
  "\<forall>f \<in> set xs. suffix ''.lua'' f \<Longrightarrow>
   map (\<lambda>b. b @ ''.lua'') (map (\<lambda>s. removesuffix s ''.lua'') xs) = xs"
  by (induction xs) (simp_all add: suffix_lua_removesuffix)

lemma get_lua_files_suffix: "\<forall>f \<in> set (get_lua_files x). suffix ''.lua'' f"
  by (cases x rule: get_lua_files.cases) auto

lemma isfile_map_of: "isfile (map_of es f) \<Longrightarrow> f \<in> set (map fst es)"
  by (cases "map_of es f") (auto dest: map_of_SomeD simp: rev_image_eqI)

lemma base_names_of_listing:
  "set (map (\<lambda>s. removesuffix s ''.lua'') (sort (get_lua_files (Some (Dir es)))))
     = {b. isfile (map_of es (b @ ''.lua''))}"
proof (rule set_eqI)
  fix b
  show "b \<in> set (map (\<lambda>s. removesuffix s ''.lua'') (sort (get_lua_files (Some (Dir es)))))
        \<longleftrightarrow> b \<in> {b. isfile (map_of es (b @ ''.lua''))}"
  proof
    assume "b \<in> set (map (\<lambda>s. removesuffix s ''.lua'') (sort (get_lua_files (Some (Dir es)))))"
    then obtain f where f: "f \<in> set (map fst es)" "suffix ''.lua'' f" "isfile (map_of es f)"
      and b: "b = removesuffix f ''.lua''"
      by auto
    from f(2) b have "b @ ''.lua'' = f" by (simp add: suffix_lua_removesuffix)
    with f(3) show "b \<in> {b. isfile (map_of es (b @ ''.lua''))}" by simp
  next
    assume "b \<in> {b. isfile (map_of es (b @ ''.lua''))}"
    then have i: "isfile (map_of es (b @ ''.lua''))" by simp
    then have "b @ ''.lua'' \<in> set (map fst es)" by (rule isfile_map_of)
    with i have "b @ ''.lua'' \<in> set (get_lua_files (Some (Dir es)))"
      by (simp add: suffix_def)
    then have "removesuffix (b @ ''.lua'') ''.lua''
                 \<in> set (map (\<lambda>s. removesuffix s ''.lua'') (sort (get_lua_files (Some (Dir es)))))"
      by (simp del: get_lua_files.simps removesuffix_lua)
    then show "b \<in> set (map (\<lambda>s. removesuffix s ''.lua'') (sort (get_lua_files (Some (Dir es)))))"
      by (simp only: removesuffix_lua)
  qed
qed

lemma sorted_listing:
  "sorted (map (\<lambda>b. b @ ''.lua'') (map (\<lambda>s. removesuffix s ''.lua'') (sort (get_lua_files x))))"
proof -
  have "\<forall>f \<in> set (sort (get_lua_files x)). suffix ''.lua'' f"
    using get_lua_files_suffix [of x] by simp
  from map_removesuffix [OF this] show ?thesis by simp
qed

lemma makedirs_Inr:
  assumes "makedirs ok d ''disabled'' = Inr d1"
  shows "(\<forall>f. f \<noteq> ''disabled'' \<longrightarrow> map_of d1 f = map_of d f)
    \<and> (\<exists>kids. map_of d1 ''disabled'' = Some (Dir kids)
          \<and> (\<forall>f. map_of kids f =
                 (case map_of d ''disabled'' of Some (Dir ks) \<Rightarrow> map_of ks f | _ \<Rightarrow> None)))"
  using assms
  by (auto simp: makedirs_def update_conv' split: option.splits node.splits if_splits)

lemma get_scripts_Inr:
  assumes "get_scripts fs version ok = (Inr r, fs')"
  shows "set (enabled r) = {b. isfile (enabled_entry fs version (b @ ''.lua''))}
    \<and> set (disabled r) = {b. isfile (disabled_entry fs version (b @ ''.lua''))}
    \<and> sorted (map (\<lambda>b. b @ ''.lua'') (enabled r))
    \<and> sorted (map (\<lambda>b. b @ ''.lua'') (disabled r))"
proof -
  let ?d = "fs (scripts_path version)"
  from assms obtain d1 where m: "makedirs ok ?d ''disabled'' = Inr d1"
    and r: "r = \<lparr>enabled = map (\<lambda>s. removesuffix s ''.lua'') (sort (get_lua_files (Some (Dir d1)))),
                 disabled = map (\<lambda>s. removesuffix s ''.lua'')
                              (sort (get_lua_files (map_of d1 ''disabled'')))\<rparr>"
    by (auto simp: get_scripts_def Let_def split: sum.splits)
  from makedirs_Inr [OF m] obtain kids where
    same: "\<And>f. f \<noteq> ''disabled'' \<Longrightarrow> map_of d1 f = map_of ?d f"
    and k: "map_of d1 ''disabled'' = Some (Dir kids)"
    and ks: "\<And>f. map_of kids f =
                 (case map_of ?d ''disabled'' of Some (Dir ks) \<Rightarrow> map_of ks f | _ \<Rightarrow> None)"
    by blast
  have e: "set (enabled r) = {b. isfile (enabled_entry fs version (b @ ''.lua''))}"
    using r base_names_of_listing [of d1] same [OF actual_filename_not_disabled]
    by (simp add: enabled_entry_def del: get_lua_files.simps)
  have d: "set (disabled r) = {b. isfile (disabled_entry fs version (b @ ''.lua''))}"
    using r k base_names_of_listing [of kids] ks
    by (simp add: disabled_entry_def del: get_lua_files.simps)
  have s1: "sorted (map (\<lambda>b. b @ ''.lua'') (enabled r))"
    using r sorted_listing [of "Some (Dir d1)"] by (simp del: get_lua_files.simps)
  have s2: "sorted (map (\<lambda>b. b @ ''.lua'') (disabled r))"
    using r sorted_listing [of "map_of d1 ''disabled''"] by (simp del: get_lua_files.simps)
  from e d s1 s2 show ?thesis by blast
qed

lemma enable_script_absent:
  "disabled_entry fs version (filename @ ''.lua'') = None \<Longrightarrow>
   enable_script fs filename version ok = (False, fs)"
  by (auto simp: enable_script_def disabled_entry_def Let_def split: option.splits node.splits)

lemma disable_script_absent:
  "enabled_entry fs version (filename @ ''.lua'') = None \<Longrightarrow>
   disable_script fs filename version ok = (False, fs)"
  by (simp add: disable_script_def enabled_entry_def Let_def)

lemma place_Inr:
  assumes "place d name n = Inr d1"
  shows "map_of d1 name \<noteq> None
    \<and> (\<forall>f. f \<noteq> name \<longrightarrow> map_of d1 f = map_of d f)
    \<and> ((\<forall>kids. map_of d name \<noteq> Some (Dir kids)) \<longrightarrow> map_of d1 name = Some n)"
  using assms
  by (auto simp: place_def update_conv' split: option.splits node.splits)

lemma enable_script_True:
  assumes "enable_script fs filename version ok = (True, fs')"
  shows "enabled_entry fs' version (filename @ ''.lua'') \<noteq> None
    \<and> disabled_entry fs' version (filename @ ''.lua'') = None
    \<and> ((\<forall>kids. enabled_entry fs version (filename @ ''.lua'') \<noteq> Some (Dir kids)) \<longrightarrow>
         enabled_entry fs' version (filename @ ''.lua'')
           = disabled_entry fs version (filename @ ''.lua''))"
proof -
  let ?p = "scripts_path version" and ?a = "filename @ ''.lua''"
  from assms obtain kids n d1 where
    k: "map_of (fs ?p) ''disabled'' = Some (Dir kids)"
    and n: "map_of kids ?a = Some n"
    and pl: "place (fs ?p) ?a n = Inr d1"
    and fs': "fs' = fs(?p := AList.update ''disabled'' (Dir (AList.delete ?a kids)) d1)"
    by (auto simp: enable_script_def Let_def split: option.splits node.splits if_splits sum.splits)
  from fs' have d': "fs' ?p = AList.update ''disabled'' (Dir (AList.delete ?a kids)) d1" by simp
  from place_Inr [OF pl] d' actual_filename_not_disabled [of filename] k n
  show ?thesis
    by (simp add: enabled_entry_def disabled_entry_def update_conv' delete_conv')
qed

lemma disable_script_True:
  assumes "disable_script fs filename version ok = (True, fs')"
  shows "disabled_entry fs' version (filename @ ''.lua'') \<noteq> None
    \<and> enabled_entry fs' version (filename @ ''.lua'') = None
    \<and> ((\<forall>kids. disabled_entry fs version (filename @ ''.lua'') \<noteq> Some (Dir kids)) \<longrightarrow>
         disabled_entry fs' version (filename @ ''.lua'')
           = enabled_entry fs version (filename @ ''.lua''))"
proof -
  let ?p = "scripts_path version" and ?a = "filename @ ''.lua''"
  from assms obtain n d1 kids kids1 where
    n: "map_of (fs ?p) ?a = Some n"
    and m: "makedirs ok (fs ?p) ''disabled'' = Inr d1"
    and k: "map_of d1 ''disabled'' = Some (Dir kids)"
    and pl: "place kids ?a n = Inr kids1"
    and fs': "fs' = fs(?p := AList.update ''disabled'' (Dir kids1) (AList.delete ?a d1))"
    by (auto simp: disable_script_def Let_def split: option.splits node.splits if_splits sum.splits)
  from fs' have d': "fs' ?p = AList.update ''disabled'' (Dir kids1) (AList.delete ?a d1)" by simp
  from makedirs_Inr [OF m] k have
    ks: "map_of kids ?a = (case map_of (fs ?p) ''disabled'' of Some (Dir ks) \<Rightarrow> map_of ks ?a | _ \<Rightarrow> None)"
    by auto
  from place_Inr [OF pl] d' actual_filename_not_disabled [of filename] n ks
  show ?thesis
    by (simp add: enabled_entry_def disabled_entry_def update_conv' delete_conv')
qed

lemmas lua_defs =
  get_scripts_def enable_script_def disable_script_def makedirs_def place_def
  scripts_path_def SCRIPTS_PATH_def SCRIPTS_PATH_V2_def removesuffix_def
  enabled_entry_def disabled_entry_def empty_fs_def suffix_to_prefix

text \<open>
  With the two scripts \<^verbatim>\<open>a.lua\<close> and \<^verbatim>\<open>a-b.lua\<close> enabled, the file names are sorted as
  \<^verbatim>\<open>a-b.lua\<close>, \<^verbatim>\<open>a.lua\<close> (the hyphen precedes the dot), and the listing returns the base
  names in that order, which is not their sorted order.
\<close>

theorem listing_not_sorted_counterexample:
  "fst (get_scripts (empty_fs(SCRIPTS_PATH := [(''a.lua'', File ''''), (''a-b.lua'', File '''')]))
          ''v1'' True)
     = Inr \<lparr>enabled = [''a-b'', ''a''], disabled = []\<rparr>
   \<and> \<not> sorted [''a-b'', ''a'']"
  by (simp add: lua_defs Let_def less_eq_list_code less_list_code less_char_def less_eq_char_def)

lemma removesuffix_inj_on:
  "\<forall>f \<in> A. suffix ''.lua'' f \<Longrightarrow> inj_on (\<lambda>s. removesuffix s ''.lua'') A"
proof (rule inj_onI)
  fix f g
  assume a: "\<forall>f \<in> A. suffix ''.lua'' f" and f: "f \<in> A" and g: "g \<in> A"
    and e: "removesuffix f ''.lua'' = removesuffix g ''.lua''"
  from a f have "removesuffix f ''.lua'' @ ''.lua'' = f" by (simp add: suffix_lua_removesuffix)
  moreover from a g have "removesuffix g ''.lua'' @ ''.lua'' = g" by (simp add: suffix_lua_removesuffix)
  ultimately show "f = g" using e by metis
qed

lemma distinct_listing:
  assumes "distinct (map fst es)"
  shows "distinct (map (\<lambda>s. removesuffix s ''.lua'') (sort (get_lua_files (Some (Dir es)))))"
proof -
  from assms have "distinct (sort (get_lua_files (Some (Dir es))))"
    by (simp only: get_lua_files.simps distinct_sort distinct_filter)
  moreover have "inj_on (\<lambda>s. removesuffix s ''.lua'') (set (sort (get_lua_files (Some (Dir es)))))"
    using get_lua_files_suffix [of "Some (Dir es)"]
    by (intro removesuffix_inj_on) (simp only: set_sort)
  ultimately show ?thesis by (simp only: distinct_map simp_thms)
qed

lemma makedirs_disabled_kids:
  assumes "makedirs ok d ''disabled'' = Inr d1"
  shows "map_of d1 ''disabled'' =
           Some (Dir (case map_of d ''disabled'' of Some (Dir ks) \<Rightarrow> ks | _ \<Rightarrow> []))"
  using assms
  by (auto simp: makedirs_def update_conv' split: option.splits node.splits if_splits)

lemma get_scripts_distinct:
  assumes "get_scripts fs version ok = (Inr r, fs')"
  shows "(distinct (map fst (fs (scripts_path version))) \<longrightarrow> distinct (enabled r))
    \<and> ((\<forall>kids. map_of (fs (scripts_path version)) ''disabled'' = Some (Dir kids)
              \<longrightarrow> distinct (map fst kids)) \<longrightarrow> distinct (disabled r))"
proof -
  let ?d = "fs (scripts_path version)"
  from assms obtain d1 where m: "makedirs ok ?d ''disabled'' = Inr d1"
    and r: "r = \<lparr>enabled = map (\<lambda>s. removesuffix s ''.lua'') (sort (get_lua_files (Some (Dir d1)))),
                 disabled = map (\<lambda>s. removesuffix s ''.lua'')
                              (sort (get_lua_files (map_of d1 ''disabled'')))\<rparr>"
    by (auto simp: get_scripts_def Let_def split: sum.splits)
  have e: "distinct (enabled r)" if "distinct (map fst ?d)"
  proof -
    from m that have "distinct (map fst d1)"
      by (auto simp: makedirs_def AList.distinct_update split: option.splits node.splits if_splits)
    from distinct_listing [OF this] r show ?thesis by (simp del: get_lua_files.simps)
  qed
  have d: "distinct (disabled r)"
    if h: "\<forall>kids. map_of ?d ''disabled'' = Some (Dir kids) \<longrightarrow> distinct (map fst kids)"
  proof -
    let ?k = "case map_of ?d ''disabled'' of Some (Dir ks) \<Rightarrow> ks | _ \<Rightarrow> []"
    have "distinct (map fst ?k)"
    proof (cases "map_of ?d ''disabled''")
      case None
      then show ?thesis by simp
    next
      case (Some n)
      with h show ?thesis by (cases n) simp_all
    qed
    from distinct_listing [OF this] r makedirs_disabled_kids [OF m] show ?thesis
      by (simp del: get_lua_files.simps)
  qed
  from e d show ?thesis by blast
qed

lemma enable_script_moves_file:
  assumes "enable_script fs filename version ok = (True, fs')"
    and "disabled_entry fs version (filename @ ''.lua'') = Some (File c)"
    and "\<forall>kids. enabled_entry fs version (filename @ ''.lua'') \<noteq> Some (Dir kids)"
  shows "enabled_entry fs' version (filename @ ''.lua'') = Some (File c)
    \<and> disabled_entry fs' version (filename @ ''.lua'') = None"
proof -
  from enable_script_True [OF assms(1)]
  have 1: "disabled_entry fs' version (filename @ ''.lua'') = None"
    and 2: "(\<forall>kids. enabled_entry fs version (filename @ ''.lua'') \<noteq> Some (Dir kids)) \<longrightarrow>
         enabled_entry fs' version (filename @ ''.lua'')
           = disabled_entry fs version (filename @ ''.lua'')"
    by blast+
  from 2 assms(3) have "enabled_entry fs' version (filename @ ''.lua'')
           = disabled_entry fs version (filename @ ''.lua'')" by (rule mp)
  with assms(2) 1 show ?thesis by (simp only: simp_thms)
qed

lemma disable_script_moves_file:
  assumes "disable_script fs filename version ok = (True, fs')"
    and "enabled_entry fs version (filename @ ''.lua'') = Some (File c)"
    and "\<forall>kids. disabled_entry fs version (filename @ ''.lua'') \<noteq> Some (Dir kids)"
  shows "disabled_entry fs' version (filename @ ''.lua'') = Some (File c)
    \<and> enabled_entry fs' version (filename @ ''.lua'') = None"
proof -
  from disable_script_True [OF assms(1)]
  have 1: "enabled_entry fs' version (filename @ ''.lua'') = None"
    and 2: "(\<forall>kids. disabled_entry fs version (filename @ ''.lua'') \<noteq> Some (Dir kids)) \<longrightarrow>
         disabled_entry fs' version (filename @ ''.lua'')
           = enabled_entry fs version (filename @ ''.lua'')"
    by blast+
  from 2 assms(3) have "disabled_entry fs' version (filename @ ''.lua'')
           = enabled_entry fs version (filename @ ''.lua'')" by (rule mp)
  with assms(2) 1 show ?thesis by (simp only: simp_thms)
qed

text \<open>
  C9, amended: for every script base name and installation, \<^verbatim>\<open>enable_script\<close> with
  nothing at \<^verbatim>\<open>disabled/<name>.lua\<close>, and \<^verbatim>\<open>disable_script\<close> with nothing at \<^verbatim>\<open><name>.lua\<close> in
  the scripts directory, return \<^verbatim>\<open>False\<close> and change nothing. When either returns
  \<^verbatim>\<open>True\<close>, the source is a regular file and the destination name is not taken by a
  directory, that file is afterwards at the destination and nothing is at the source.
  When \<^verbatim>\<open>get_scripts\<close> returns, its two lists hold exactly the base names of the regular
  \<^verbatim>\<open>.lua\<close> files of the scripts directory and of the disabled directory, in the sorted
  order of the file names with their extension, each name once when the directory
  lists each name once.
\<close>

theorem script_toggle_service:
  "(disabled_entry fs version (filename @ ''.lua'') = None \<longrightarrow>
      enable_script fs filename version ok = (False, fs))
   \<and> (enabled_entry fs version (filename @ ''.lua'') = None \<longrightarrow>
      disable_script fs filename version ok = (False, fs))
   \<and> (enable_script fs filename version ok = (True, fs')
       \<and> disabled_entry fs version (filename @ ''.lua'') = Some (File c)
       \<and> (\<forall>kids. enabled_entry fs version (filename @ ''.lua'') \<noteq> Some (Dir kids)) \<longrightarrow>
      enabled_entry fs' version (filename @ ''.lua'') = Some (File c)
      \<and> disabled_entry fs' version (filename @ ''.lua'') = None)
   \<and> (disable_script fs filename version ok = (True, fs')
       \<and> enabled_entry fs version (filename @ ''.lua'') = Some (File c)
       \<and> (\<forall>kids. disabled_entry fs version (filename @ ''.lua'') \<noteq> Some (Dir kids)) \<longrightarrow>
      disabled_entry fs' version (filename @ ''.lua'') = Some (File c)
      \<and> enabled_entry fs' version (filename @ ''.lua'') = None)
   \<and> (get_scripts fs version ok = (Inr r, fs') \<longrightarrow>
      set (enabled r) = {b. isfile (enabled_entry fs version (b @ ''.lua''))}
      \<and> set (disabled r) = {b. isfile (disabled_entry fs version (b @ ''.lua''))}
      \<and> sorted (map (\<lambda>b. b @ ''.lua'') (enabled r))
      \<and> sorted (map (\<lambda>b. b @ ''.lua'') (disabled r))
      \<and> (distinct (map fst (fs (scripts_path version))) \<longrightarrow> distinct (enabled r))
      \<and> ((\<forall>kids. map_of (fs (scripts_path version)) ''disabled'' = Some (Dir kids)
                \<longrightarrow> distinct (map fst kids)) \<longrightarrow> distinct (disabled r)))"
proof (intro conjI impI)
  assume "disabled_entry fs version (filename @ ''.lua'') = None"
  then show "enable_script fs filename version ok = (False, fs)"
    by (rule enable_script_absent)
next
  assume "enabled_entry fs version (filename @ ''.lua'') = None"
  then show "disable_script fs filename version ok = (False, fs)"
    by (rule disable_script_absent)
next
  assume a: "enable_script fs filename version ok = (True, fs')
       \<and> disabled_entry fs version (filename @ ''.lua'') = Some (File c)
       \<and> (\<forall>kids. enabled_entry fs version (filename @ ''.lua'') \<noteq> Some (Dir kids))"
  from a enable_script_moves_file [of fs filename version ok fs' c]
  show "enabled_entry fs' version (filename @ ''.lua'') = Some (File c)" by blast
  from a enable_script_moves_file [of fs filename version ok fs' c]
  show "disabled_entry fs' version (filename @ ''.lua'') = None" by blast
next
  assume a: "disable_script fs filename version ok = (True, fs')
       \<and> enabled_entry fs version (filename @ ''.lua'') = Some (File c)
       \<and> (\<forall>kids. disabled_entry fs version (filename @ ''.lua'') \<noteq> Some (Dir kids))"
  from a disable_script_moves_file [of fs filename version ok fs' c]
  show "disabled_entry fs' version (filename @ ''.lua'') = Some (File c)" by blast
  from a disable_script_moves_file [of fs filename version ok fs' c]
  show "enabled_entry fs' version (filename @ ''.lua'') = None" by blast
next
  assume g: "get_scripts fs version ok = (Inr r, fs')"
  from get_scripts_Inr [OF g]
  show "set (enabled r) = {b. isfile (enabled_entry fs version (b @ ''.lua''))}"
    and "set (disabled r) = {b. isfile (disabled_entry fs version (b @ ''.lua''))}"
    and "sorted (map (\<lambda>b. b @ ''.lua'') (enabled r))"
    and "sorted (map (\<lambda>b. b @ ''.lua'') (disabled r))"
    by simp_all
  {
    assume "distinct (map fst (fs (scripts_path version)))"
    with get_scripts_distinct [OF g] show "distinct (enabled r)" by blast
  }
  {
    assume "\<forall>kids. map_of (fs (scripts_path version)) ''disabled'' = Some (Dir kids)
                \<longrightarrow> distinct (map fst kids)"
    with get_scripts_distinct [OF g] show "distinct (disabled r)" by blast
  }
qed

theorem script_toggle_service_witness:
  "enable_script (empty_fs(SCRIPTS_PATH_V2 := [(''x.lua'', File ''return 1'')])) ''x'' ''v2'' True
     = (False, empty_fs(SCRIPTS_PATH_V2 := [(''x.lua'', File ''return 1'')]))
   \<and> fst (disable_script (empty_fs(SCRIPTS_PATH_V2 := [(''x.lua'', File ''return 1'')]))
            ''x'' ''v2'' True) = True
   \<and> disabled_entry
         (snd (disable_script (empty_fs(SCRIPTS_PATH_V2 := [(''x.lua'', File ''return 1'')]))
                 ''x'' ''v2'' True)) ''v2'' ''x.lua'' = Some (File ''return 1'')
   \<and> enabled_entry
         (snd (disable_script (empty_fs(SCRIPTS_PATH_V2 := [(''x.lua'', File ''return 1'')]))
                 ''x'' ''v2'' True)) ''v2'' ''x.lua'' = None
   \<and> fst (enable_script
         (empty_fs(SCRIPTS_PATH := [(''disabled'', Dir [(''z.lua'', File ''return 2'')])]))
         ''z'' ''v1'' True) = True
   \<and> enabled_entry
         (snd (enable_script
            (empty_fs(SCRIPTS_PATH := [(''disabled'', Dir [(''z.lua'', File ''return 2'')])]))
            ''z'' ''v1'' True)) ''v1'' ''z.lua'' = Some (File ''return 2'')
   \<and> set (enabled (projr (fst (get_scripts
         (empty_fs(SCRIPTS_PATH_V2 := [(''x.lua'', File ''return 1'')])) ''v2'' True))))
       = {b. isfile (enabled_entry (empty_fs(SCRIPTS_PATH_V2 := [(''x.lua'', File ''return 1'')]))
                       ''v2'' (b @ ''.lua''))}
   \<and> distinct (enabled (projr (fst (get_scripts
         (empty_fs(SCRIPTS_PATH_V2 := [(''x.lua'', File ''return 1'')])) ''v2'' True))))"
proof -
  let ?fs = "empty_fs(SCRIPTS_PATH_V2 := [(''x.lua'', File ''return 1'')])"
  let ?gs = "empty_fs(SCRIPTS_PATH := [(''disabled'', Dir [(''z.lua'', File ''return 2'')])])"
  let ?D = "disable_script ?fs ''x'' ''v2'' True"
  let ?E = "enable_script ?gs ''z'' ''v1'' True"
  let ?G = "get_scripts ?fs ''v2'' True"
  have a: "disabled_entry ?fs ''v2'' (''x'' @ ''.lua'') = None"
    by (simp add: lua_defs)
  have fd: "fst ?D = True"
    by (simp add: lua_defs Let_def)
  then have d: "?D = (True, snd ?D)"
    by (simp add: prod_eq_iff)
  have nd: "\<forall>kids. disabled_entry ?fs ''v2'' (''x'' @ ''.lua'') \<noteq> Some (Dir kids)"
    using a by simp
  have en: "enabled_entry ?fs ''v2'' (''x'' @ ''.lua'') = Some (File ''return 1'')"
    by (simp add: lua_defs)
  have fe: "fst ?E = True"
    by (simp add: lua_defs Let_def)
  then have e: "?E = (True, snd ?E)"
    by (simp add: prod_eq_iff)
  have ds: "disabled_entry ?gs ''v1'' (''z'' @ ''.lua'') = Some (File ''return 2'')"
    by (simp add: lua_defs)
  have ne: "\<forall>kids. enabled_entry ?gs ''v1'' (''z'' @ ''.lua'') \<noteq> Some (Dir kids)"
    by (simp add: lua_defs)
  have "fst ?G = Inr (projr (fst ?G))"
    by (simp add: lua_defs Let_def)
  then have g: "?G = (Inr (projr (fst ?G)), snd ?G)"
    by (simp add: prod_eq_iff)
  have dn: "distinct (map fst (?fs (scripts_path ''v2'')))"
    by (simp add: lua_defs)
  from script_toggle_service [of ?fs "''v2''" "''x''" True "snd ?D"] a
  have 1: "enable_script ?fs ''x'' ''v2'' True = (False, ?fs)" by blast
  from script_toggle_service [of ?fs "''v2''" "''x''" True "snd ?D" "''return 1''"] d nd en
  have 2: "disabled_entry (snd ?D) ''v2'' (''x'' @ ''.lua'') = Some (File ''return 1'')"
    and 3: "enabled_entry (snd ?D) ''v2'' (''x'' @ ''.lua'') = None"
    by blast+
  from script_toggle_service [of ?gs "''v1''" "''z''" True "snd ?E" "''return 2''"] e ds ne
  have 4: "enabled_entry (snd ?E) ''v1'' (''z'' @ ''.lua'') = Some (File ''return 2'')"
    by blast
  from script_toggle_service [of ?fs "''v2''" "''x''" True "snd ?G" "''return 1''" "projr (fst ?G)"] g dn
  have 5: "set (enabled (projr (fst ?G)))
           = {b. isfile (enabled_entry ?fs ''v2'' (b @ ''.lua''))}"
    and 6: "distinct (enabled (projr (fst ?G)))"
    by blast+
  from 1 2 3 4 5 6 fd fe show ?thesis by simp
qed

section \<open>Sharing of dicts between keys and installations\<close>

lemmas ref_defs =
  sync_auto_reload_settings_ref_def get_auto_reload_changed_scripts_ref_def
  set_auto_reload_changed_scripts_ref_def set_setting_ref_def get_setting_ref_def
  get_settings_with_cache_ref_def read_json_safely_ref_def write_json_safely_ref_def
  return_empty_dict_def new_dict_def emit_ref_def init_ref_def version_key_def
  get_file_path_def SETTINGS_FILE_PATHS_def YIMMENU_SETTINGS_FILE_PATH_def
  YIMMENUV2_SETTINGS_FILE_PATH_def

text \<open>
  C5 asks that \<^verbatim>\<open>set_setting\<close> on one installation leave the other installation's cache
  entry and the result of every \<^verbatim>\<open>get_setting\<close> against it unchanged. It fails in the
  following run. The primary's file holds a mapping as the value of
  \<^verbatim>\<open>lua.auto_reload_changed_scripts\<close>, the enhanced one's file holds \<^verbatim>\<open>{}\<close>.
  \<^verbatim>\<open>sync_auto_reload_settings("v1", "v2")\<close> returns \<^verbatim>\<open>True\<close> and stores the dict found in
  the primary's cached document in the enhanced one's. The primary then reads
  \<^verbatim>\<open>lua.auto_reload_changed_scripts.x\<close> as 1. A \<^verbatim>\<open>set_setting\<close> of that key to 2 on the
  enhanced installation returns \<^verbatim>\<open>True\<close>, and the primary reads 2, from its cache, while
  its file still holds 1 with the old modification time.
\<close>

theorem shared_dict_breaks_isolation:
  "fst (sync_auto_reload_settings_ref
   (init_ref [YIMMENU_SETTINGS_FILE_PATH \<mapsto>
                \<lparr>content = Document (JObj [(''lua'', JObj [(''auto_reload_changed_scripts'',
                                                            JObj [(''x'', JInt 1)])])]),
                 mtime = 1\<rparr>,
              YIMMENUV2_SETTINGS_FILE_PATH \<mapsto> \<lparr>content = Document (JObj []), mtime = 2\<rparr>])
   ''v1'' ''v2'' (WriteOk 5)) = Inr True
   \<and> fst (get_setting_ref (snd (sync_auto_reload_settings_ref
   (init_ref [YIMMENU_SETTINGS_FILE_PATH \<mapsto>
                \<lparr>content = Document (JObj [(''lua'', JObj [(''auto_reload_changed_scripts'',
                                                            JObj [(''x'', JInt 1)])])]),
                 mtime = 1\<rparr>,
              YIMMENUV2_SETTINGS_FILE_PATH \<mapsto> \<lparr>content = Document (JObj []), mtime = 2\<rparr>])
   ''v1'' ''v2'' (WriteOk 5))) ''lua.auto_reload_changed_scripts.x'' VNone ''v1'') = Inr (VInt 1)
   \<and> fst (set_setting_ref (snd (sync_auto_reload_settings_ref
   (init_ref [YIMMENU_SETTINGS_FILE_PATH \<mapsto>
                \<lparr>content = Document (JObj [(''lua'', JObj [(''auto_reload_changed_scripts'',
                                                            JObj [(''x'', JInt 1)])])]),
                 mtime = 1\<rparr>,
              YIMMENUV2_SETTINGS_FILE_PATH \<mapsto> \<lparr>content = Document (JObj []), mtime = 2\<rparr>])
   ''v1'' ''v2'' (WriteOk 5)))
   ''lua.auto_reload_changed_scripts.x'' (VInt 2) ''v2'' (WriteOk 6)) = Inr True
   \<and> fst (get_setting_ref (snd (set_setting_ref (snd (sync_auto_reload_settings_ref
   (init_ref [YIMMENU_SETTINGS_FILE_PATH \<mapsto>
                \<lparr>content = Document (JObj [(''lua'', JObj [(''auto_reload_changed_scripts'',
                                                            JObj [(''x'', JInt 1)])])]),
                 mtime = 1\<rparr>,
              YIMMENUV2_SETTINGS_FILE_PATH \<mapsto> \<lparr>content = Document (JObj []), mtime = 2\<rparr>])
   ''v1'' ''v2'' (WriteOk 5)))
   ''lua.auto_reload_changed_scripts.x'' (VInt 2) ''v2'' (WriteOk 6))) ''lua.auto_reload_changed_scripts.x'' VNone ''v1'') = Inr (VInt 2)
   \<and> ref_files (snd (set_setting_ref (snd (sync_auto_reload_settings_ref
   (init_ref [YIMMENU_SETTINGS_FILE_PATH \<mapsto>
                \<lparr>content = Document (JObj [(''lua'', JObj [(''auto_reload_changed_scripts'',
                                                            JObj [(''x'', JInt 1)])])]),
                 mtime = 1\<rparr>,
              YIMMENUV2_SETTINGS_FILE_PATH \<mapsto> \<lparr>content = Document (JObj []), mtime = 2\<rparr>])
   ''v1'' ''v2'' (WriteOk 5)))
   ''lua.auto_reload_changed_scripts.x'' (VInt 2) ''v2'' (WriteOk 6))) YIMMENU_SETTINGS_FILE_PATH
       = Some \<lparr>content = Document (JObj [(''lua'', JObj [(''auto_reload_changed_scripts'',
                                                          JObj [(''x'', JInt 1)])])]),
               mtime = 1\<rparr>"
  by (simp add: ref_defs Let_def)

text \<open>
  C7 asks that \<^verbatim>\<open>sync_auto_reload_settings\<close> leave every other key of the target's
  document unchanged. It fails in the following run. On the enhanced installation
  \<^verbatim>\<open>get_setting("lua")\<close> returns the cached dict, at address 0, and
  \<^verbatim>\<open>set_setting("backup", ...)\<close> with that dict returns \<^verbatim>\<open>True\<close>; the keys \<^verbatim>\<open>lua\<close> and
  \<^verbatim>\<open>backup\<close> now hold one dict, the file holds both without the flag, and
  \<^verbatim>\<open>backup.auto_reload_changed_scripts\<close> reads as the default. \<^verbatim>\<open>sync_auto_reload_settings("v1", "v2")\<close> returns \<^verbatim>\<open>True\<close>, and afterwards
  \<^verbatim>\<open>backup.auto_reload_changed_scripts\<close> reads \<^verbatim>\<open>True\<close> and is in the target's file.
\<close>

theorem sync_changes_key_that_shares_dict:
  "fst (get_setting_ref
   (init_ref [YIMMENU_SETTINGS_FILE_PATH \<mapsto>
                \<lparr>content = Document (JObj [(''lua'', JObj [(''auto_reload_changed_scripts'', JBool True)])]),
                 mtime = 1\<rparr>,
              YIMMENUV2_SETTINGS_FILE_PATH \<mapsto>
                \<lparr>content = Document (JObj [(''lua'', JObj [(''auto_reload_scripts'', JBool True)])]),
                 mtime = 2\<rparr>])
   ''lua'' VNone ''v2'') = Inr (VDict 0)
   \<and> fst (set_setting_ref (snd (get_setting_ref
   (init_ref [YIMMENU_SETTINGS_FILE_PATH \<mapsto>
                \<lparr>content = Document (JObj [(''lua'', JObj [(''auto_reload_changed_scripts'', JBool True)])]),
                 mtime = 1\<rparr>,
              YIMMENUV2_SETTINGS_FILE_PATH \<mapsto>
                \<lparr>content = Document (JObj [(''lua'', JObj [(''auto_reload_scripts'', JBool True)])]),
                 mtime = 2\<rparr>])
   ''lua'' VNone ''v2''))
   ''backup'' (VDict 0) ''v2'' (WriteOk 5)) = Inr True
   \<and> ref_files (snd (set_setting_ref (snd (get_setting_ref
   (init_ref [YIMMENU_SETTINGS_FILE_PATH \<mapsto>
                \<lparr>content = Document (JObj [(''lua'', JObj [(''auto_reload_changed_scripts'', JBool True)])]),
                 mtime = 1\<rparr>,
              YIMMENUV2_SETTINGS_FILE_PATH \<mapsto>
                \<lparr>content = Document (JObj [(''lua'', JObj [(''auto_reload_scripts'', JBool True)])]),
                 mtime = 2\<rparr>])
   ''lua'' VNone ''v2''))
   ''backup'' (VDict 0) ''v2'' (WriteOk 5))) YIMMENUV2_SETTINGS_FILE_PATH
       = Some \<lparr>content = Document
                 (JObj [(''lua'', JObj [(''auto_reload_scripts'', JBool True)]),
                        (''backup'', JObj [(''auto_reload_scripts'', JBool True)])]),
               mtime = 5\<rparr>
   \<and> fst (get_setting_ref (snd (set_setting_ref (snd (get_setting_ref
   (init_ref [YIMMENU_SETTINGS_FILE_PATH \<mapsto>
                \<lparr>content = Document (JObj [(''lua'', JObj [(''auto_reload_changed_scripts'', JBool True)])]),
                 mtime = 1\<rparr>,
              YIMMENUV2_SETTINGS_FILE_PATH \<mapsto>
                \<lparr>content = Document (JObj [(''lua'', JObj [(''auto_reload_scripts'', JBool True)])]),
                 mtime = 2\<rparr>])
   ''lua'' VNone ''v2''))
   ''backup'' (VDict 0) ''v2'' (WriteOk 5))) ''backup.auto_reload_changed_scripts'' VNone ''v2'') = Inr VNone
   \<and> fst (sync_auto_reload_settings_ref (snd (set_setting_ref (snd (get_setting_ref
   (init_ref [YIMMENU_SETTINGS_FILE_PATH \<mapsto>
                \<lparr>content = Document (JObj [(''lua'', JObj [(''auto_reload_changed_scripts'', JBool True)])]),
                 mtime = 1\<rparr>,
              YIMMENUV2_SETTINGS_FILE_PATH \<mapsto>
                \<lparr>content = Document (JObj [(''lua'', JObj [(''auto_reload_scripts'', JBool True)])]),
                 mtime = 2\<rparr>])
   ''lua'' VNone ''v2''))
   ''backup'' (VDict 0) ''v2'' (WriteOk 5)))
   ''v1'' ''v2'' (WriteOk 6)) = Inr True
   \<and> fst (get_setting_ref (snd (sync_auto_reload_settings_ref (snd (set_setting_ref (snd (get_setting_ref
   (init_ref [YIMMENU_SETTINGS_FILE_PATH \<mapsto>
                \<lparr>content = Document (JObj [(''lua'', JObj [(''auto_reload_changed_scripts'', JBool True)])]),
                 mtime = 1\<rparr>,
              YIMMENUV2_SETTINGS_FILE_PATH \<mapsto>
                \<lparr>content = Document (JObj [(''lua'', JObj [(''auto_reload_scripts'', JBool True)])]),
                 mtime = 2\<rparr>])
   ''lua'' VNone ''v2''))
   ''backup'' (VDict 0) ''v2'' (WriteOk 5)))
   ''v1'' ''v2'' (WriteOk 6))) ''backup.auto_reload_changed_scripts'' VNone ''v2'') = Inr (VBool True)
   \<and> ref_files (snd (sync_auto_reload_settings_ref (snd (set_setting_ref (snd (get_setting_ref
   (init_ref [YIMMENU_SETTINGS_FILE_PATH \<mapsto>
                \<lparr>content = Document (JObj [(''lua'', JObj [(''auto_reload_changed_scripts'', JBool True)])]),
                 mtime = 1\<rparr>,
              YIMMENUV2_SETTINGS_FILE_PATH \<mapsto>
                \<lparr>content = Document (JObj [(''lua'', JObj [(''auto_reload_scripts'', JBool True)])]),
                 mtime = 2\<rparr>])
   ''lua'' VNone ''v2''))
   ''backup'' (VDict 0) ''v2'' (WriteOk 5)))
   ''v1'' ''v2'' (WriteOk 6))) YIMMENUV2_SETTINGS_FILE_PATH
       = Some \<lparr>content = Document
                 (JObj [(''lua'', JObj [(''auto_reload_scripts'', JBool True),
                                       (''auto_reload_changed_scripts'', JBool True)]),
                        (''backup'', JObj [(''auto_reload_scripts'', JBool True),
                                          (''auto_reload_changed_scripts'', JBool True)])]),
               mtime = 6\<rparr>"
  by (simp add: ref_defs Let_def)

end
